theory Spec2Isabelle
  imports Main "HOL-Library.Log_Nat" "HOL-Library.Multiset"
begin

section \<open>JavaScript numbers\<close>

text \<open>
  Amounts are JavaScript numbers (the columns are \<^verbatim>\<open>real\<close>, the storage layer reads them
  with \<^verbatim>\<open>parseFloat\<close> and adds them with \<^verbatim>\<open>+\<close>), that is IEEE-754 binary64 values.
  Every finite binary64 value is an integer multiple of \<open>2^-1074\<close>, the smallest subnormal;
  \<open>Fin k\<close> stands for \<open>k * 2^-1074\<close>. A value is representable when \<open>k\<close> has at most 53
  significant bits and is below \<open>2^2098\<close> (that is \<open>2^1024\<close>) in magnitude. The two zeros
  are identified: they print alike and no code here divides by one.
\<close>

datatype jsnum = Fin int | PosInf | NegInf | NaN

text \<open>\<open>rne s sh\<close>: \<open>s / 2^sh\<close> rounded to the nearest integer, ties to the even one.\<close>

definition rne :: "int \<Rightarrow> nat \<Rightarrow> int" where
  "rne s sh =
     (let q = s div 2 ^ sh; r = s mod 2 ^ sh
      in if 2 * r < 2 ^ sh then q
         else if 2 ^ sh < 2 * r then q + 1
         else if even q then q else q + 1)"

text \<open>
  Rounding an exact result to binary64: keep the 53 leading bits, round to nearest even,
  overflow to an infinity. Results below the normal range need no rounding, since
  the unit \<open>2^-1074\<close> is already their spacing.
\<close>

definition round53 :: "int \<Rightarrow> jsnum" where
  "round53 s =
     (let sh = nat (bitlen \<bar>s\<bar> - 53); v = rne s sh * 2 ^ sh
      in if 2 ^ 2098 \<le> \<bar>v\<bar> then (if 0 < v then PosInf else NegInf) else Fin v)"

text \<open>The \<^verbatim>\<open>+\<close> of two numbers.\<close>

fun fadd :: "jsnum \<Rightarrow> jsnum \<Rightarrow> jsnum" where
  "fadd (Fin a) (Fin b) = round53 (a + b)"
| "fadd NaN _ = NaN"
| "fadd _ NaN = NaN"
| "fadd PosInf NegInf = NaN"
| "fadd NegInf PosInf = NaN"
| "fadd PosInf _ = PosInf"
| "fadd _ PosInf = PosInf"
| "fadd NegInf _ = NegInf"
| "fadd _ NegInf = NegInf"

text \<open>The comparison \<^verbatim>\<open>x < 0\<close>; it is false on \<^verbatim>\<open>NaN\<close>.\<close>

fun ltZero :: "jsnum \<Rightarrow> bool" where
  "ltZero (Fin k) = (k < 0)"
| "ltZero NegInf = True"
| "ltZero PosInf = False"
| "ltZero NaN = False"

text \<open>The number with the integer value \<open>n\<close>, and the one with the value \<open>m * 2^e\<close>.\<close>

definition ofInt :: "int \<Rightarrow> jsnum" where
  "ofInt n = Fin (n * 2 ^ 1074)"


text \<open>A JavaScript value, as far as \<^verbatim>\<open>typeof\<close> tells them apart.\<close>

datatype jsvalue = JNum jsnum | JStr string | JBool bool | JNull | JUndefined | JObj

section \<open>The tables of shared/schema.ts\<close>

text \<open>
  Instants (\<^verbatim>\<open>Date\<close> values) are milliseconds since the epoch. A \<^verbatim>\<open>saveDate\<close> is kept as
  the instant \<^verbatim>\<open>new Date(saveDate).getTime()\<close> that the engine reads from it; strings that
  do not parse to a date are outside the model.

  A column declared \<^verbatim>\<open>integer(..., { mode: 'timestamp' })\<close> keeps whole seconds: a \<^verbatim>\<open>Date\<close>
  written to it reads back as \<open>timestamp\<close> of it.

  The storage layer writes \<^verbatim>\<open>totalSaved\<close> and \<^verbatim>\<open>currentAmount\<close> as \<^verbatim>\<open>x.toString()\<close> into
  \<^verbatim>\<open>real\<close> columns. The text of a finite number is converted back to that number; the
  texts of the other numbers are no numerals for the database and stay text. Such a column
  reads as a number or as a text, \<open>toStringReal x\<close> for the number \<open>x\<close> written.
\<close>

definition timestamp :: "int \<Rightarrow> int" where
  "timestamp date = date div 1000 * 1000"

fun toStringReal :: "jsnum \<Rightarrow> jsvalue" where
  "toStringReal (Fin k) = JNum (Fin k)"
| "toStringReal PosInf = JStr ''Infinity''"
| "toStringReal NegInf = JStr ''-Infinity''"
| "toStringReal NaN = JStr ''NaN''"

text \<open>
  The body of a registration request (\<open>None\<close> is a field the body does not have) and the
  values of \<^verbatim>\<open>InsertUser\<close> that the routes hand to the insert.
\<close>

record register_body =
  email :: "string option"
  password :: "string option"
  firstName :: "string option"
  lastName :: "string option"

record insert_user =
  email :: string
  password :: string
  firstName :: "string option"
  lastName :: "string option"

record user =
  id' :: string
  email :: string
  password :: string
  firstName :: "string option"
  lastName :: "string option"
  createdAt :: "int option"
  updatedAt :: "int option"

text \<open>
  The values a request hands to an insert or an update: \<^verbatim>\<open>InsertStreakEntry\<close>,
  \<^verbatim>\<open>InsertSavingsStreak\<close> (the schema omits \<^verbatim>\<open>id\<close>, \<^verbatim>\<open>currentStreak\<close>, \<^verbatim>\<open>longestStreak\<close>,
  \<^verbatim>\<open>totalSaved\<close>, \<^verbatim>\<open>createdAt\<close> and \<^verbatim>\<open>updatedAt\<close>; \<^verbatim>\<open>frequency\<close> is any text), and the
  fields that index.ts reads from the body of \<^verbatim>\<open>PUT /api/goals/:id\<close>, where \<open>None\<close> is a
  field the body does not have and the two amounts are what \<^verbatim>\<open>parseFloat\<close> made of them.
\<close>

record insert_streak_entry =
  streakId :: int
  amount :: jsnum
  saveDate :: int

record insert_savings_streak =
  userId :: string
  challengeName :: string
  targetAmount :: jsnum
  frequency :: string
  isActive :: "bool option"
  lastSaveDate :: "int option"
  startDate :: string
  endDate :: "string option"

record goal_body =
  title :: "string option"
  description :: "string option"
  targetAmount :: jsnum
  currentAmount :: "jsnum option"
  category :: "string option"
  targetDate :: "string option"
  status :: "string option"

record streak_entry =
  id' :: int
  streakId :: int
  amount :: jsnum
  saveDate :: int
  createdAt :: int

text \<open>Every other table has an integer primary key and an owning user.\<close>

record row =
  id' :: int
  userId :: string

record expense = row +
  description :: string
  amount :: jsnum
  category :: string
  date :: string
  isRecurring :: "bool option"
  dayOfMonth :: "int option"
  endDate :: "string option"
  dueDate :: "string option"
  createdAt :: int

record budget = row +
  category :: string
  amount :: jsnum
  period :: string
  createdAt :: int

record savings_streak = row +
  challengeName :: string
  targetAmount :: jsnum
  frequency :: string
  currentStreak :: int
  longestStreak :: int
  isActive :: bool
  lastSaveDate :: "int option"
  totalSaved :: jsvalue
  startDate :: string
  endDate :: "string option"
  createdAt :: int
  updatedAt :: int

record goal = row +
  title :: string
  description :: "string option"
  targetAmount :: jsnum
  currentAmount :: jsvalue
  category :: string
  targetDate :: string
  status :: string
  createdAt :: int
  updatedAt :: int

text \<open>
  A table is the list of its rows, in rowid order. The keys are \<^verbatim>\<open>AUTOINCREMENT\<close>: for the
  two tables that the modelled operations insert into, the database also keeps the largest
  \<^verbatim>\<open>id\<close> the table has ever had, so that an \<^verbatim>\<open>id\<close> is not given twice.
\<close>

record db =
  users :: "user list"
  expenses :: "expense list"
  budgets :: "budget list"
  goals :: "goal list"
  savingsStreaks :: "savings_streak list"
  streakEntries :: "streak_entry list"
  savingsStreaksSeq :: int
  streakEntriesSeq :: int

section \<open>Queries\<close>

text \<open>
  The conditions \<^verbatim>\<open>eq(t.id, id)\<close>, \<^verbatim>\<open>eq(t.userId, userId)\<close> and \<^verbatim>\<open>and(p, q)\<close>, and the three
  statements: \<^verbatim>\<open>select().from(t).where(p)\<close>, \<^verbatim>\<open>update(t).set(f).where(p).returning()\<close>
  (the new table and the rows it changed) and \<^verbatim>\<open>delete(t).where(p)\<close> (the new table and
  the number of rows deleted, which the result of the SQLite drivers has as \<^verbatim>\<open>changes\<close>).
  That result has no \<^verbatim>\<open>rowCount\<close>: the property reads as \<^verbatim>\<open>undefined\<close>, so that
  \<^verbatim>\<open>(result.rowCount || 0) > 0\<close> is \<open>rowCountPositive\<close> of it. \<open>firstRow\<close> is the
  destructuring \<^verbatim>\<open>const [x] = rows\<close>, with \<open>None\<close> for \<^verbatim>\<open>undefined\<close>.
\<close>

definition eqId :: "int \<Rightarrow> 'a row_scheme \<Rightarrow> bool" where
  "eqId i r = (row.id' r = i)"

definition eqUserId :: "string \<Rightarrow> 'a row_scheme \<Rightarrow> bool" where
  "eqUserId u r = (userId r = u)"

definition and' :: "('r \<Rightarrow> bool) \<Rightarrow> ('r \<Rightarrow> bool) \<Rightarrow> 'r \<Rightarrow> bool" where
  "and' p q r = (p r \<and> q r)"

definition selectWhere :: "('r \<Rightarrow> bool) \<Rightarrow> 'r list \<Rightarrow> 'r list" where
  "selectWhere p t = filter p t"

definition updateWhere :: "('r \<Rightarrow> 'r) \<Rightarrow> ('r \<Rightarrow> bool) \<Rightarrow> 'r list \<Rightarrow> 'r list \<times> 'r list" where
  "updateWhere f p t = (map (\<lambda>r. if p r then f r else r) t, map f (filter p t))"

definition deleteWhere :: "('r \<Rightarrow> bool) \<Rightarrow> 'r list \<Rightarrow> 'r list \<times> nat" where
  "deleteWhere p t = (filter (\<lambda>r. \<not> p r) t, length (filter p t))"

definition rowCount :: "nat \<Rightarrow> nat option" where
  "rowCount changes = None"

definition rowCountPositive :: "nat \<Rightarrow> bool" where
  "rowCountPositive changes = (0 < (case rowCount changes of None \<Rightarrow> 0 | Some n \<Rightarrow> n))"

definition firstRow :: "'r list \<Rightarrow> 'r option" where
  "firstRow rows = (case rows of [] \<Rightarrow> None | x # _ \<Rightarrow> Some x)"

section \<open>DatabaseStorage: savings streaks\<close>

definition getSavingsStreak :: "int \<Rightarrow> string \<Rightarrow> db \<Rightarrow> savings_streak option" where
  "getSavingsStreak i u d = firstRow (selectWhere (and' (eqId i) (eqUserId u)) (savingsStreaks d))"

text \<open>
  An insert appends the row; the database gives it the next \<^verbatim>\<open>id\<close>, one more than the
  largest the table has or has ever had, and the defaults of the columns the statement
  leaves out (\<open>now\<close> is the clock at that moment).
\<close>

definition nextId :: "int \<Rightarrow> int list \<Rightarrow> int" where
  "nextId seq ids = fold max ids (max seq 0) + 1"

definition createSavingsStreak :: "int \<Rightarrow> insert_savings_streak \<Rightarrow> db \<Rightarrow> savings_streak \<times> db" where
  "createSavingsStreak now streak d =
     (let newStreak =
            \<lparr>row.id' = nextId (savingsStreaksSeq d) (map row.id' (savingsStreaks d)),
             userId = insert_savings_streak.userId streak,
             challengeName = insert_savings_streak.challengeName streak,
             targetAmount = insert_savings_streak.targetAmount streak,
             frequency = insert_savings_streak.frequency streak,
             currentStreak = 0,
             longestStreak = 0,
             isActive = (case insert_savings_streak.isActive streak of None \<Rightarrow> True | Some b \<Rightarrow> b),
             lastSaveDate = insert_savings_streak.lastSaveDate streak,
             totalSaved = JNum (Fin 0),
             startDate = insert_savings_streak.startDate streak,
             endDate = insert_savings_streak.endDate streak,
             createdAt = timestamp now,
             updatedAt = timestamp now\<rparr>
      in (newStreak, d\<lparr>savingsStreaks := savingsStreaks d @ [newStreak],
                       savingsStreaksSeq := row.id' newStreak\<rparr>))"

definition addStreakEntry :: "int \<Rightarrow> insert_streak_entry \<Rightarrow> db \<Rightarrow> streak_entry \<times> db" where
  "addStreakEntry now entry d =
     (let newEntry =
            \<lparr>streak_entry.id' = nextId (streakEntriesSeq d) (map streak_entry.id' (streakEntries d)),
             streakId = insert_streak_entry.streakId entry,
             amount = insert_streak_entry.amount entry,
             saveDate = insert_streak_entry.saveDate entry,
             createdAt = timestamp now\<rparr>
      in (newEntry, d\<lparr>streakEntries := streakEntries d @ [newEntry],
                      streakEntriesSeq := streak_entry.id' newEntry\<rparr>))"

definition getStreakEntries :: "int \<Rightarrow> db \<Rightarrow> streak_entry list" where
  "getStreakEntries sid d = selectWhere (\<lambda>e. streakId e = sid) (streakEntries d)"

subsection \<open>The streak progress engine (updateStreakProgress)\<close>

definition msPerDay :: int where
  "msPerDay = 1000 * 60 * 60 * 24"

definition expectedGap :: "string \<Rightarrow> int" where
  "expectedGap f =
     (let g = 1;
          g = (if f = ''weekly'' then 7 else g);
          g = (if f = ''monthly'' then 30 else g)
      in g)"

text \<open>\<^verbatim>\<open>Math.floor((checkDate.getTime() - entryDate.getTime()) / (1000 * 60 * 60 * 24))\<close>\<close>

definition daysDiff :: "int \<Rightarrow> int \<Rightarrow> int" where
  "daysDiff checkDate entryDate = (checkDate - entryDate) div msPerDay"

text \<open>
  \<^verbatim>\<open>checkDate.setDate(checkDate.getDate() - expectedGap)\<close> works on the local calendar of the
  server. \<open>tza t isUTC\<close> is the offset of local time from UTC, in milliseconds, as the
  language defines it (\<^verbatim>\<open>LocalTZA\<close>): at the instant \<open>t\<close> when \<open>isUTC\<close>, at the local time
  \<open>t\<close> otherwise. The method reads the local time of the date, goes back that many calendar
  days at the same time of day, and turns the result into an instant again. Where the
  offset is the same at both ends this is a step back of so many days of 24 hours; across a
  daylight-saving shift it differs from that by the shift.
\<close>

definition setDateMinus :: "(int \<Rightarrow> bool \<Rightarrow> int) \<Rightarrow> int \<Rightarrow> int \<Rightarrow> int" where
  "setDateMinus tza checkDate g =
     (let t = checkDate + tza checkDate True;
          newDate = t - g * msPerDay
      in newDate - tza newDate False)"

text \<open>
  The \<^verbatim>\<open>for\<close> loop over the sorted entries: the arguments are the offset of local time, the
  streak's frequency, the cursor \<^verbatim>\<open>checkDate\<close>, the counter \<^verbatim>\<open>currentStreak\<close> (here
  \<open>streak\<close>) and the entries still to visit; \<^verbatim>\<open>break\<close> returns the counter.
\<close>

fun walk :: "(int \<Rightarrow> bool \<Rightarrow> int) \<Rightarrow> string \<Rightarrow> int \<Rightarrow> int \<Rightarrow> streak_entry list \<Rightarrow> int" where
  "walk tza f checkDate streak [] = streak"
| "walk tza f checkDate streak (entry # rest) =
     (let entryDate = saveDate entry
      in if daysDiff checkDate entryDate \<le> expectedGap f
         then walk tza f (setDateMinus tza entryDate (expectedGap f)) (streak + 1) rest
         else streak)"

text \<open>
  \<^verbatim>\<open>entries.sort((a, b) => new Date(b.saveDate).getTime() - new Date(a.saveDate).getTime())\<close>:
  most recent first, entries of the same instant in their stored order.
\<close>

definition sortedEntries :: "streak_entry list \<Rightarrow> streak_entry list" where
  "sortedEntries entries = sort_key (\<lambda>e. - saveDate e) entries"

text \<open>\<^verbatim>\<open>entries.reduce((sum, entry) => sum + parseFloat(entry.amount), 0)\<close>\<close>

definition sumAmounts :: "streak_entry list \<Rightarrow> jsnum" where
  "sumAmounts entries = foldl (\<lambda>sum entry. fadd sum (streak_entry.amount entry)) (Fin 0) entries"

definition calcCurrentStreak :: "(int \<Rightarrow> bool \<Rightarrow> int) \<Rightarrow> int \<Rightarrow> string \<Rightarrow> streak_entry list \<Rightarrow> int" where
  "calcCurrentStreak tza today f entries =
     (if sortedEntries entries \<noteq> [] then walk tza f today 0 (sortedEntries entries) else 0)"

definition calcLastSaveDate :: "streak_entry list \<Rightarrow> int option" where
  "calcLastSaveDate entries =
     (case sortedEntries entries of [] \<Rightarrow> None | e # _ \<Rightarrow> Some (saveDate e))"

text \<open>
  The whole operation, at the instant \<open>today\<close> (the clock is read once for the walk and once
  for \<^verbatim>\<open>updatedAt\<close>; the model uses one reading for both). The result is the returned row
  and the database after the \<^verbatim>\<open>update\<close>.
\<close>

definition updateStreakProgress ::
  "(int \<Rightarrow> bool \<Rightarrow> int) \<Rightarrow> int \<Rightarrow> int \<Rightarrow> string \<Rightarrow> db \<Rightarrow> savings_streak option \<times> db" where
  "updateStreakProgress tza today sid u d =
     (case getSavingsStreak sid u d of
        None \<Rightarrow> (None, d)
      | Some streak \<Rightarrow>
          (let entries = getStreakEntries sid d;
               total = sumAmounts entries;
               cur = calcCurrentStreak tza today (frequency streak) entries;
               longest = max cur (longestStreak streak);
               lastSave = calcLastSaveDate entries;
               (t, updated) = updateWhere
                  (\<lambda>r. r\<lparr>currentStreak := cur, longestStreak := longest,
                         totalSaved := toStringReal total, lastSaveDate := lastSave,
                         savings_streak.updatedAt := timestamp today\<rparr>)
                  (and' (eqId sid) (eqUserId u)) (savingsStreaks d)
           in (firstRow updated, d\<lparr>savingsStreaks := t\<rparr>)))"

section \<open>DatabaseStorage: the other entities\<close>

text \<open>
  A \<^verbatim>\<open>Partial<Insert...>\<close> handed to \<^verbatim>\<open>.set\<close> is the change \<open>f\<close> it makes to a row. Each
  operation returns its result and the database after it.

  \<^verbatim>\<open>.set\<close> throws ("No values to set") when the object has no field with a value. The
  statements that add \<^verbatim>\<open>updatedAt\<close> always have one; those for expenses and budgets are
  handed the parsed body alone, which is \<open>NoFields\<close> when it is empty and \<open>Fields f\<close>
  otherwise. Their result is \<open>None\<close> when the statement throws.
\<close>

datatype 'r partial = NoFields | Fields "'r \<Rightarrow> 'r"

definition getExpense :: "int \<Rightarrow> string \<Rightarrow> db \<Rightarrow> expense option" where
  "getExpense i u d = firstRow (selectWhere (and' (eqId i) (eqUserId u)) (expenses d))"

definition updateExpense :: "int \<Rightarrow> expense partial \<Rightarrow> string \<Rightarrow> db \<Rightarrow> (expense option \<times> db) option" where
  "updateExpense i expense u d =
     (case expense of
        NoFields \<Rightarrow> None
      | Fields f \<Rightarrow>
          (let (t, updated) = updateWhere f (and' (eqId i) (eqUserId u)) (expenses d)
           in Some (firstRow updated, d\<lparr>expenses := t\<rparr>)))"

definition deleteExpense :: "int \<Rightarrow> string \<Rightarrow> db \<Rightarrow> bool \<times> db" where
  "deleteExpense i u d =
     (let (t, result) = deleteWhere (and' (eqId i) (eqUserId u)) (expenses d)
      in (rowCountPositive result, d\<lparr>expenses := t\<rparr>))"

definition updateBudget :: "int \<Rightarrow> budget partial \<Rightarrow> string \<Rightarrow> db \<Rightarrow> (budget option \<times> db) option" where
  "updateBudget i budget u d =
     (case budget of
        NoFields \<Rightarrow> None
      | Fields f \<Rightarrow>
          (let (t, updated) = updateWhere f (and' (eqId i) (eqUserId u)) (budgets d)
           in Some (firstRow updated, d\<lparr>budgets := t\<rparr>)))"

definition deleteBudget :: "int \<Rightarrow> string \<Rightarrow> db \<Rightarrow> bool \<times> db" where
  "deleteBudget i u d =
     (let (t, result) = deleteWhere (and' (eqId i) (eqUserId u)) (budgets d)
      in (rowCountPositive result, d\<lparr>budgets := t\<rparr>))"

definition getGoal :: "int \<Rightarrow> string \<Rightarrow> db \<Rightarrow> goal option" where
  "getGoal i u d = firstRow (selectWhere (and' (eqId i) (eqUserId u)) (goals d))"

definition updateGoal :: "int \<Rightarrow> int \<Rightarrow> (goal \<Rightarrow> goal) \<Rightarrow> string \<Rightarrow> db \<Rightarrow> goal option \<times> db" where
  "updateGoal now i f u d =
     (let (t, updated) = updateWhere (\<lambda>r. (f r)\<lparr>goal.updatedAt := timestamp now\<rparr>)
                           (and' (eqId i) (eqUserId u)) (goals d)
      in (firstRow updated, d\<lparr>goals := t\<rparr>))"

definition deleteGoal :: "int \<Rightarrow> string \<Rightarrow> db \<Rightarrow> bool \<times> db" where
  "deleteGoal i u d =
     (let (t, result) = deleteWhere (and' (eqId i) (eqUserId u)) (goals d)
      in (rowCountPositive result, d\<lparr>goals := t\<rparr>))"

text \<open>
  \<^verbatim>\<open>currentAmount: amount.toString()\<close> goes into a \<^verbatim>\<open>real\<close> column, \<^verbatim>\<open>updatedAt: new Date()\<close>
  into a column of whole seconds.
\<close>

definition updateGoalProgress :: "int \<Rightarrow> int \<Rightarrow> jsnum \<Rightarrow> string \<Rightarrow> db \<Rightarrow> goal option \<times> db" where
  "updateGoalProgress now i amt u d =
     (let (t, updated) = updateWhere (\<lambda>r. r\<lparr>currentAmount := toStringReal amt,
                                             goal.updatedAt := timestamp now\<rparr>)
                           (and' (eqId i) (eqUserId u)) (goals d)
      in (firstRow updated, d\<lparr>goals := t\<rparr>))"

definition updateSavingsStreak ::
  "int \<Rightarrow> int \<Rightarrow> (savings_streak \<Rightarrow> savings_streak) \<Rightarrow> string \<Rightarrow> db \<Rightarrow> savings_streak option \<times> db" where
  "updateSavingsStreak now i f u d =
     (let (t, updated) = updateWhere (\<lambda>r. (f r)\<lparr>savings_streak.updatedAt := timestamp now\<rparr>)
                           (and' (eqId i) (eqUserId u)) (savingsStreaks d)
      in (firstRow updated, d\<lparr>savingsStreaks := t\<rparr>))"

text \<open>Deleting a streak deletes its entries (\<^verbatim>\<open>onDelete: "cascade"\<close>).\<close>

definition deleteSavingsStreak :: "int \<Rightarrow> string \<Rightarrow> db \<Rightarrow> bool \<times> db" where
  "deleteSavingsStreak i u d =
     (let gone = map row.id' (selectWhere (and' (eqId i) (eqUserId u)) (savingsStreaks d));
          (t, result) = deleteWhere (and' (eqId i) (eqUserId u)) (savingsStreaks d)
      in (rowCountPositive result,
          d\<lparr>savingsStreaks := t,
            streakEntries := filter (\<lambda>e. streakId e \<notin> set gone) (streakEntries d)\<rparr>))"

section \<open>The routes of the storage-backed server\<close>

text \<open>
  A handler runs after \<^verbatim>\<open>isAuthenticated\<close>, for the user \<open>u\<close> of the session and the \<open>i\<close>
  that \<^verbatim>\<open>parseInt(req.params.id)\<close> read, and returns the response and the database after
  it. \<open>Json c x\<close> is \<^verbatim>\<open>res.status(c).json(x)\<close> for a row or a list, \<open>Msg c m\<close> the same for
  \<^verbatim>\<open>{ message: m }\<close>, and \<open>Send c\<close> is \<^verbatim>\<open>res.status(c).send()\<close>. A message is named by its
  text, without the accents of the Portuguese ones: \<open>Goal_not_found\<close> is "Goal not found",
  \<open>Email_ja_esta_em_uso\<close> is the 409 text of index.ts, and so on. The body that a zod
  schema has parsed is \<open>None\<close> where \<^verbatim>\<open>parse\<close> throws a \<^verbatim>\<open>ZodError\<close>. An error that is no
  \<^verbatim>\<open>ZodError\<close> ends in the last line of the \<^verbatim>\<open>catch\<close> block, with status 500.
\<close>

datatype message =
    Expense_not_found | Invalid_expense_data | Failed_to_update_expense
  | Budget_not_found | Invalid_budget_data | Failed_to_update_budget
  | Goal_not_found | Invalid_goal_data | Invalid_amount
  | Streak_not_found | Invalid_streak_data | Invalid_entry_data
  | Email_e_senha_sao_obrigatorios | Usuario_ja_existe_com_este_email
  | Email_ja_esta_em_uso | Meta_nao_encontrada | Erro_interno_do_servidor

datatype 'a response = Json nat 'a | Msg nat message | Send nat

definition getExpenseRoute :: "string \<Rightarrow> int \<Rightarrow> db \<Rightarrow> expense response \<times> db" where
  "getExpenseRoute u i d =
     (case getExpense i u d of
        None \<Rightarrow> (Msg 404 Expense_not_found, d)
      | Some expense \<Rightarrow> (Json 200 expense, d))"

definition putExpenseRoute :: "string \<Rightarrow> int \<Rightarrow> expense partial option \<Rightarrow> db \<Rightarrow> expense response \<times> db" where
  "putExpenseRoute u i body d =
     (case body of
        None \<Rightarrow> (Msg 400 Invalid_expense_data, d)
      | Some validatedData \<Rightarrow>
          (case updateExpense i validatedData u d of
             None \<Rightarrow> (Msg 500 Failed_to_update_expense, d)
           | Some (None, d') \<Rightarrow> (Msg 404 Expense_not_found, d')
           | Some (Some updatedExpense, d') \<Rightarrow> (Json 200 updatedExpense, d')))"

definition deleteExpenseRoute :: "string \<Rightarrow> int \<Rightarrow> db \<Rightarrow> expense response \<times> db" where
  "deleteExpenseRoute u i d =
     (case deleteExpense i u d of
        (False, d') \<Rightarrow> (Msg 404 Expense_not_found, d')
      | (True, d') \<Rightarrow> (Send 204, d'))"

definition putBudgetRoute :: "string \<Rightarrow> int \<Rightarrow> budget partial option \<Rightarrow> db \<Rightarrow> budget response \<times> db" where
  "putBudgetRoute u i body d =
     (case body of
        None \<Rightarrow> (Msg 400 Invalid_budget_data, d)
      | Some validatedData \<Rightarrow>
          (case updateBudget i validatedData u d of
             None \<Rightarrow> (Msg 500 Failed_to_update_budget, d)
           | Some (None, d') \<Rightarrow> (Msg 404 Budget_not_found, d')
           | Some (Some updatedBudget, d') \<Rightarrow> (Json 200 updatedBudget, d')))"

definition deleteBudgetRoute :: "string \<Rightarrow> int \<Rightarrow> db \<Rightarrow> budget response \<times> db" where
  "deleteBudgetRoute u i d =
     (case deleteBudget i u d of
        (False, d') \<Rightarrow> (Msg 404 Budget_not_found, d')
      | (True, d') \<Rightarrow> (Send 204, d'))"

definition getGoalRoute :: "string \<Rightarrow> int \<Rightarrow> db \<Rightarrow> goal response \<times> db" where
  "getGoalRoute u i d =
     (case getGoal i u d of
        None \<Rightarrow> (Msg 404 Goal_not_found, d)
      | Some g \<Rightarrow> (Json 200 g, d))"

definition putGoalRoute :: "int \<Rightarrow> string \<Rightarrow> int \<Rightarrow> (goal \<Rightarrow> goal) option \<Rightarrow> db \<Rightarrow> goal response \<times> db" where
  "putGoalRoute now u i body d =
     (case body of
        None \<Rightarrow> (Msg 400 Invalid_goal_data, d)
      | Some validatedData \<Rightarrow>
          (case updateGoal now i validatedData u d of
             (None, d') \<Rightarrow> (Msg 404 Goal_not_found, d')
           | (Some updatedGoal, d') \<Rightarrow> (Json 200 updatedGoal, d')))"

definition deleteGoalRoute :: "string \<Rightarrow> int \<Rightarrow> db \<Rightarrow> goal response \<times> db" where
  "deleteGoalRoute u i d =
     (case deleteGoal i u d of
        (False, d') \<Rightarrow> (Msg 404 Goal_not_found, d')
      | (True, d') \<Rightarrow> (Send 204, d'))"

text \<open>
  \<^verbatim>\<open>PATCH /api/goals/:id/progress\<close>: \<open>amt\<close> is the body's \<^verbatim>\<open>amount\<close>, and the test is
  \<^verbatim>\<open>typeof amount !== "number" || amount < 0\<close>.
\<close>

definition patchGoalProgressRoute :: "int \<Rightarrow> string \<Rightarrow> int \<Rightarrow> jsvalue \<Rightarrow> db \<Rightarrow> goal response \<times> db" where
  "patchGoalProgressRoute now u i amt d =
     (case amt of
        JNum a \<Rightarrow>
          (if ltZero a then (Msg 400 Invalid_amount, d)
           else (case updateGoalProgress now i a u d of
                   (None, d') \<Rightarrow> (Msg 404 Goal_not_found, d')
                 | (Some updatedGoal, d') \<Rightarrow> (Json 200 updatedGoal, d')))
      | _ \<Rightarrow> (Msg 400 Invalid_amount, d))"

definition getStreakRoute :: "string \<Rightarrow> int \<Rightarrow> db \<Rightarrow> savings_streak response \<times> db" where
  "getStreakRoute u i d =
     (case getSavingsStreak i u d of
        None \<Rightarrow> (Msg 404 Streak_not_found, d)
      | Some streak \<Rightarrow> (Json 200 streak, d))"

definition postStreakRoute :: "int \<Rightarrow> insert_savings_streak option \<Rightarrow> db \<Rightarrow> savings_streak response \<times> db" where
  "postStreakRoute now body d =
     (case body of
        None \<Rightarrow> (Msg 400 Invalid_streak_data, d)
      | Some validatedData \<Rightarrow>
          (case createSavingsStreak now validatedData d of (streak, d') \<Rightarrow> (Json 201 streak, d')))"

text \<open>
  \<^verbatim>\<open>POST /api/streaks/:id/entries\<close>: the parsed body is the amount and the date of the entry;
  the handler puts the \<^verbatim>\<open>streakId\<close> of the path beside them.
\<close>

definition postStreakEntryRoute ::
  "(int \<Rightarrow> bool \<Rightarrow> int) \<Rightarrow> int \<Rightarrow> string \<Rightarrow> int \<Rightarrow> (jsnum \<times> int) option \<Rightarrow> db
     \<Rightarrow> streak_entry response \<times> db" where
  "postStreakEntryRoute tza now u sid body d =
     (case getSavingsStreak sid u d of
        None \<Rightarrow> (Msg 404 Streak_not_found, d)
      | Some streak \<Rightarrow>
          (case body of
             None \<Rightarrow> (Msg 400 Invalid_entry_data, d)
           | Some (a, sd) \<Rightarrow>
               (let validatedData = \<lparr>insert_streak_entry.streakId = sid,
                                     insert_streak_entry.amount = a,
                                     insert_streak_entry.saveDate = sd\<rparr>;
                    (entry, d1) = addStreakEntry now validatedData d;
                    (_, d2) = updateStreakProgress tza now sid u d1
                in (Json 201 entry, d2))))"

definition getStreakEntriesRoute :: "string \<Rightarrow> int \<Rightarrow> db \<Rightarrow> streak_entry list response \<times> db" where
  "getStreakEntriesRoute u sid d =
     (case getSavingsStreak sid u d of
        None \<Rightarrow> (Msg 404 Streak_not_found, d)
      | Some streak \<Rightarrow> (Json 200 (getStreakEntries sid d), d))"

definition deleteStreakRoute :: "string \<Rightarrow> int \<Rightarrow> db \<Rightarrow> savings_streak response \<times> db" where
  "deleteStreakRoute u i d =
     (case deleteSavingsStreak i u d of
        (False, d') \<Rightarrow> (Msg 404 Streak_not_found, d')
      | (True, d') \<Rightarrow> (Send 204, d'))"

text \<open>
  A run of entry additions: each request has its clock reading, its user, the streak of
  its path and its parsed body.
\<close>

fun postStreakEntries ::
  "(int \<Rightarrow> bool \<Rightarrow> int) \<Rightarrow> (int \<times> string \<times> int \<times> (jsnum \<times> int) option) list \<Rightarrow> db \<Rightarrow> db" where
  "postStreakEntries tza [] d = d"
| "postStreakEntries tza ((now, u, sid, body) # reqs) d =
     postStreakEntries tza reqs (snd (postStreakEntryRoute tza now u sid body d))"

section \<open>Users and registration\<close>

definition getUserByEmail :: "string \<Rightarrow> db \<Rightarrow> user option" where
  "getUserByEmail e d = firstRow (selectWhere (\<lambda>r. user.email r = e) (users d))"

text \<open>
  \<^verbatim>\<open>createUser\<close> inserts the row with the \<^verbatim>\<open>id\<close> that \<^verbatim>\<open>crypto.randomUUID()\<close> made (\<open>newId\<close>)
  and the clock reading as \<^verbatim>\<open>createdAt\<close> and \<^verbatim>\<open>updatedAt\<close>. The insert throws (\<open>None\<close>) when
  the primary key or the unique index on \<^verbatim>\<open>email\<close> is violated.
\<close>

definition createUser :: "string \<Rightarrow> int \<Rightarrow> insert_user \<Rightarrow> db \<Rightarrow> (user \<times> db) option" where
  "createUser newId now userData d =
     (if selectWhere (\<lambda>r. user.email r = insert_user.email userData \<or> user.id' r = newId) (users d) \<noteq> []
      then None
      else (let newUser = \<lparr>user.id' = newId,
                             email = insert_user.email userData,
                             password = insert_user.password userData,
                             firstName = insert_user.firstName userData,
                             lastName = insert_user.lastName userData,
                             createdAt = Some (timestamp now),
                             updatedAt = Some (timestamp now)\<rparr>
            in Some (newUser, d\<lparr>users := users d @ [newUser]\<rparr>)))"

text \<open>\<^verbatim>\<open>!x\<close> and \<^verbatim>\<open>x || null\<close> for a text that may be absent.\<close>

definition falsy :: "string option \<Rightarrow> bool" where
  "falsy x = (case x of None \<Rightarrow> True | Some s \<Rightarrow> s = [])"

definition orNull :: "string option \<Rightarrow> string option" where
  "orNull x = (if falsy x then None else x)"

text \<open>
  What a registration answers with: the \<^verbatim>\<open>id\<close>, \<^verbatim>\<open>email\<close>, \<^verbatim>\<open>firstName\<close> and \<^verbatim>\<open>lastName\<close> of
  the new user.
\<close>

definition userView :: "user \<Rightarrow> string \<times> string \<times> string option \<times> string option" where
  "userView r = (user.id' r, user.email r, user.firstName r, user.lastName r)"

text \<open>
  \<^verbatim>\<open>POST /api/register\<close> of auth.ts. \<open>hashPassword\<close> is the salted scrypt hash, with the salt
  it drew. The session that \<^verbatim>\<open>req.login\<close> opens is not modelled.
\<close>

definition registerRoute ::
  "(string \<Rightarrow> string) \<Rightarrow> string \<Rightarrow> int \<Rightarrow> register_body \<Rightarrow> db
     \<Rightarrow> (string \<times> string \<times> string option \<times> string option) response \<times> db" where
  "registerRoute hashPassword newId now body d =
     (if falsy (register_body.email body) \<or> falsy (register_body.password body)
      then (Msg 400 Email_e_senha_sao_obrigatorios, d)
      else (case getUserByEmail (the (register_body.email body)) d of
              Some existingUser \<Rightarrow> (Msg 400 Usuario_ja_existe_com_este_email, d)
            | None \<Rightarrow>
                (case createUser newId now
                        \<lparr>insert_user.email = the (register_body.email body),
                         password = hashPassword (the (register_body.password body)),
                         firstName = orNull (register_body.firstName body),
                         lastName = orNull (register_body.lastName body)\<rparr> d of
                   None \<Rightarrow> (Msg 500 Erro_interno_do_servidor, d)
                 | Some (newUser, d') \<Rightarrow> (Json 201 (userView newUser), d'))))"

text \<open>
  \<^verbatim>\<open>POST /api/auth/register\<close> of index.ts. \<open>hash\<close> is \<^verbatim>\<open>bcrypt.hash(password, 10)\<close>, which
  throws without a password. Without an email the request ends in the \<^verbatim>\<open>catch\<close> block as
  well: the column is \<^verbatim>\<open>NOT NULL\<close>.
\<close>

definition authRegisterRoute ::
  "(string \<Rightarrow> string) \<Rightarrow> string \<Rightarrow> int \<Rightarrow> register_body \<Rightarrow> db
     \<Rightarrow> (string \<times> string \<times> string option \<times> string option) response \<times> db" where
  "authRegisterRoute hash newId now body d =
     (case register_body.email body of
        None \<Rightarrow> (Msg 500 Erro_interno_do_servidor, d)
      | Some e \<Rightarrow>
          (case firstRow (selectWhere (\<lambda>r. user.email r = e) (users d)) of
             Some existingUser \<Rightarrow> (Msg 409 Email_ja_esta_em_uso, d)
           | None \<Rightarrow>
               (case register_body.password body of
                  None \<Rightarrow> (Msg 500 Erro_interno_do_servidor, d)
                | Some p \<Rightarrow>
                    (case createUser newId now
                            \<lparr>insert_user.email = e,
                             password = hash p,
                             firstName = register_body.firstName body,
                             lastName = register_body.lastName body\<rparr> d of
                       None \<Rightarrow> (Msg 500 Erro_interno_do_servidor, d)
                     | Some (newUser, d') \<Rightarrow> (Json 201 (userView newUser), d')))))"

section \<open>The goal routes of index.ts\<close>

text \<open>
  index.ts builds its statements on the database handle and calls \<^verbatim>\<open>.where\<close> twice:
  \<^verbatim>\<open>db.update(goals).set(...).where(eq(goals.id, id)).where(eq(goals.userId, userId))\<close>.
  A statement of the query builder (drizzle-orm) has one condition, kept in its
  configuration: \<^verbatim>\<open>where(where) { this.config.where = where; return this; }\<close>. Its types
  allow one \<^verbatim>\<open>.where\<close> in a statement; where the file runs unchecked, each call puts its
  condition in the place of the one before, and a statement without a condition is about
  every row. \<^verbatim>\<open>.returning().get()\<close> is the first row that the statement
  changed or deleted.
\<close>

type_synonym 'r config = "('r \<Rightarrow> bool) option"

definition where' :: "('r \<Rightarrow> bool) \<Rightarrow> 'r config \<Rightarrow> 'r config" where
  "where' w config = Some w"

definition configWhere :: "'r config \<Rightarrow> 'r \<Rightarrow> bool" where
  "configWhere config r = (case config of None \<Rightarrow> True | Some w \<Rightarrow> w r)"

definition deleteReturning :: "('r \<Rightarrow> bool) \<Rightarrow> 'r list \<Rightarrow> 'r list \<times> 'r list" where
  "deleteReturning p t = (filter (\<lambda>r. \<not> p r) t, filter p t)"

text \<open>
  The \<^verbatim>\<open>.set({...})\<close> of \<^verbatim>\<open>PUT /api/goals/:id\<close>: a field the body does not have is left as it
  is, \<^verbatim>\<open>currentAmount\<close> is \<^verbatim>\<open>parseFloat(currentAmount || 0)\<close>. The amounts are taken to be
  numbers: one that does not parse cannot be stored in the \<^verbatim>\<open>NOT NULL\<close> column.
\<close>

definition setGoal :: "goal_body \<Rightarrow> int \<Rightarrow> goal \<Rightarrow> goal" where
  "setGoal body now r =
     r\<lparr>title := (case goal_body.title body of None \<Rightarrow> title r | Some x \<Rightarrow> x),
       description := (case goal_body.description body of None \<Rightarrow> description r | Some x \<Rightarrow> Some x),
       targetAmount := goal_body.targetAmount body,
       currentAmount := JNum (case goal_body.currentAmount body of None \<Rightarrow> Fin 0 | Some x \<Rightarrow> x),
       category := (case goal_body.category body of None \<Rightarrow> category r | Some x \<Rightarrow> x),
       targetDate := (case goal_body.targetDate body of None \<Rightarrow> targetDate r | Some x \<Rightarrow> x),
       status := (case goal_body.status body of None \<Rightarrow> status r | Some x \<Rightarrow> x),
       goal.updatedAt := timestamp now\<rparr>"

definition putGoalIndexRoute :: "int \<Rightarrow> string \<Rightarrow> int \<Rightarrow> goal_body \<Rightarrow> db \<Rightarrow> goal response \<times> db" where
  "putGoalIndexRoute now u i body d =
     (let config = where' (eqUserId u) (where' (eqId i) None);
          (t, updated) = updateWhere (setGoal body now) (configWhere config) (goals d)
      in (case firstRow updated of
            None \<Rightarrow> (Msg 404 Meta_nao_encontrada, d\<lparr>goals := t\<rparr>)
          | Some updatedGoal \<Rightarrow> (Json 200 updatedGoal, d\<lparr>goals := t\<rparr>)))"

definition deleteGoalIndexRoute :: "string \<Rightarrow> int \<Rightarrow> db \<Rightarrow> goal response \<times> db" where
  "deleteGoalIndexRoute u i d =
     (let config = where' (eqUserId u) (where' (eqId i) None);
          (t, deleted) = deleteReturning (configWhere config) (goals d)
      in (case firstRow deleted of
            None \<Rightarrow> (Msg 404 Meta_nao_encontrada, d\<lparr>goals := t\<rparr>)
          | Some deletedGoal \<Rightarrow> (Send 204, d\<lparr>goals := t\<rparr>)))"

text \<open>Whether the table has a row with this \<^verbatim>\<open>id\<close> that belongs to this user.\<close>

definition owns :: "string \<Rightarrow> int \<Rightarrow> 'a row_scheme list \<Rightarrow> bool" where
  "owns u i t = (selectWhere (and' (eqId i) (eqUserId u)) t \<noteq> [])"

section \<open>Auxiliary definitions and example data\<close>

text \<open>The row that a recomputation writes over \<open>r\<close>, from the streak it read and its entries.\<close>

definition progressRow ::
  "(int \<Rightarrow> bool \<Rightarrow> int) \<Rightarrow> int \<Rightarrow> savings_streak \<Rightarrow> streak_entry list \<Rightarrow> savings_streak \<Rightarrow> savings_streak" where
  "progressRow tza today streak entries r =
     r\<lparr>currentStreak := calcCurrentStreak tza today (frequency streak) entries,
       longestStreak := max (calcCurrentStreak tza today (frequency streak) entries) (longestStreak streak),
       totalSaved := toStringReal (sumAmounts entries),
       lastSaveDate := calcLastSaveDate entries,
       savings_streak.updatedAt := timestamp today\<rparr>"

text \<open>
  Concrete data for the examples. \<open>utc\<close> is the offset of a server whose local time is UTC.
  \<open>fallBack\<close> is the offset of a server that is one hour ahead of UTC until the instant 0,
  where its clocks go back an hour (the local times of that hour come twice, and are read
  with the offset before the change, as the language has it).
\<close>

definition utc :: "int \<Rightarrow> bool \<Rightarrow> int" where
  "utc t isUTC = 0"

definition fallBack :: "int \<Rightarrow> bool \<Rightarrow> int" where
  "fallBack t isUTC =
     (if isUTC then (if t < 0 then 3600000 else 0) else (if t < 3600000 then 3600000 else 0))"

definition emptyDb :: db where
  "emptyDb = \<lparr>users = [], expenses = [], budgets = [], goals = [], savingsStreaks = [],
               streakEntries = [], savingsStreaksSeq = 0, streakEntriesSeq = 0\<rparr>"

definition exampleStreak :: savings_streak where
  "exampleStreak =
     \<lparr>row.id' = 1, userId = ''alice'', challengeName = ''cafe'', targetAmount = ofInt 100,
      frequency = ''weekly'', currentStreak = 0, longestStreak = 0, isActive = True,
      lastSaveDate = None, totalSaved = JNum (Fin 0), startDate = ''2024-07-01'', endDate = None,
      createdAt = 0, updatedAt = 0\<rparr>"

definition exampleDb :: db where
  "exampleDb = emptyDb\<lparr>savingsStreaks := [exampleStreak], savingsStreaksSeq := 1\<rparr>"

definition exampleInsert :: insert_savings_streak where
  "exampleInsert =
     \<lparr>insert_savings_streak.userId = ''alice'', challengeName = ''cafe'', targetAmount = ofInt 100,
      frequency = ''weekly'', isActive = None, lastSaveDate = None, startDate = ''2024-07-01'',
      endDate = None\<rparr>"

definition yearlyStreak :: savings_streak where
  "yearlyStreak = exampleStreak\<lparr>frequency := ''yearly''\<rparr>"

definition yearlyDb :: db where
  "yearlyDb = emptyDb\<lparr>savingsStreaks := [yearlyStreak], savingsStreaksSeq := 1\<rparr>"

text \<open>
  The walk in the words of the specification: the cursor before the entry at position \<open>i\<close>
  of the sorted entries is the clock reading for the first entry and, for a later one, the
  date of the entry before it moved back by the expected gap (in calendar days of the
  server); the entry at \<open>i\<close> is within the window when its gap in whole days from that
  cursor is at most the expected gap.
\<close>

definition cursorAt :: "(int \<Rightarrow> bool \<Rightarrow> int) \<Rightarrow> string \<Rightarrow> int \<Rightarrow> streak_entry list \<Rightarrow> nat \<Rightarrow> int" where
  "cursorAt tza f today es i =
     (if i = 0 then today else setDateMinus tza (saveDate (es ! (i - 1))) (expectedGap f))"

definition counted :: "(int \<Rightarrow> bool \<Rightarrow> int) \<Rightarrow> string \<Rightarrow> int \<Rightarrow> streak_entry list \<Rightarrow> nat \<Rightarrow> bool" where
  "counted tza f today es i =
     (daysDiff (cursorAt tza f today es i) (saveDate (es ! i)) \<le> expectedGap f)"

text \<open>
  The number of the calendar day that an instant falls in, on a calendar whose local time is
  \<open>z\<close> milliseconds ahead of UTC.
\<close>

definition dayOf :: "int \<Rightarrow> int \<Rightarrow> int" where
  "dayOf z t = (t + z) div msPerDay"

text \<open>An entry saved at midnight of day number \<open>day\<close>.\<close>

definition entryOn :: "int \<Rightarrow> streak_entry" where
  "entryOn day = \<lparr>streak_entry.id' = day, streakId = 1, amount = ofInt 10,
                   saveDate = day * msPerDay, createdAt = 0\<rparr>"

text \<open>An entry saved at the instant \<open>t\<close>.\<close>

definition entryAt :: "int \<Rightarrow> streak_entry" where
  "entryAt t = \<lparr>streak_entry.id' = 1, streakId = 1, amount = ofInt 10, saveDate = t, createdAt = 0\<rparr>"

text \<open>The row that \<open>addStreakEntry\<close> inserts.\<close>

definition newEntry :: "int \<Rightarrow> int \<Rightarrow> jsnum \<Rightarrow> int \<Rightarrow> db \<Rightarrow> streak_entry" where
  "newEntry now sid a sd d =
     \<lparr>streak_entry.id' = nextId (streakEntriesSeq d) (map streak_entry.id' (streakEntries d)),
      streakId = sid, amount = a, saveDate = sd, createdAt = timestamp now\<rparr>"

text \<open>
  The total in the words of the specification: the exact sum of the amounts, each finite
  amount being counted with its exact value (in units of \<open>2^-1074\<close>).
\<close>

fun units :: "jsnum \<Rightarrow> int" where
  "units (Fin k) = k"
| "units _ = 0"

definition exactTotal :: "streak_entry list \<Rightarrow> jsnum" where
  "exactTotal entries = Fin (sum_list (map (\<lambda>e. units (streak_entry.amount e)) entries))"




definition tensDb :: db where
  "tensDb = exampleDb\<lparr>streakEntries := [entryOn 1, entryOn 2], streakEntriesSeq := 2\<rparr>"

text \<open>
  The row of that streak after a recomputation one and a half seconds after midnight of
  day 2: both entries are counted.
\<close>

definition tensProgress :: savings_streak where
  "tensProgress =
     exampleStreak\<lparr>currentStreak := 2, longestStreak := 2, totalSaved := JNum (ofInt 20),
                   lastSaveDate := Some (2 * msPerDay),
                   savings_streak.updatedAt := 2 * msPerDay + 1000\<rparr>"

text \<open>Two goals, of two users, and the body of a request that changes a goal.\<close>

definition aliceGoal :: goal where
  "aliceGoal =
     \<lparr>row.id' = 1, userId = ''alice'', title = ''Viagem'', description = None,
      targetAmount = ofInt 2000, currentAmount = JNum (ofInt 100), category = ''travel'',
      targetDate = ''2024-12-31'', status = ''active'', createdAt = 0, updatedAt = 0\<rparr>"

definition bobGoal :: goal where
  "bobGoal =
     \<lparr>row.id' = 2, userId = ''bob'', title = ''Carro'', description = None,
      targetAmount = ofInt 9000, currentAmount = JNum (ofInt 300), category = ''car'',
      targetDate = ''2025-06-30'', status = ''active'', createdAt = 0, updatedAt = 0\<rparr>"

definition goalsDb :: db where
  "goalsDb = emptyDb\<lparr>goals := [aliceGoal, bobGoal]\<rparr>"

definition newGoalBody :: goal_body where
  "newGoalBody =
     \<lparr>goal_body.title = Some ''Moto'', description = None, targetAmount = ofInt 5000,
      currentAmount = Some (ofInt 0), category = Some ''bike'', targetDate = Some ''2025-01-31'',
      status = Some ''active''\<rparr>"

definition aliceUser :: user where
  "aliceUser =
     \<lparr>user.id' = ''u1'', email = ''alice@example.com'', password = ''hash'', firstName = None,
      lastName = None, createdAt = Some 0, updatedAt = Some 0\<rparr>"

definition usersDb :: db where
  "usersDb = emptyDb\<lparr>users := [aliceUser]\<rparr>"

definition aliceAgain :: register_body where
  "aliceAgain =
     \<lparr>register_body.email = Some ''alice@example.com'', password = Some ''secret'',
      firstName = None, lastName = None\<rparr>"

section \<open>Properties of the streak progress engine\<close>

subsection \<open>The walk and the tables\<close>

lemma walk_ge: "n \<le> walk tza f c n es"
proof (induction es arbitrary: c n)
  case Nil show ?case by simp
next
  case (Cons e es)
  have "n + 1 \<le> walk tza f (setDateMinus tza (saveDate e) (expectedGap f)) (n + 1) es"
    by (rule Cons.IH)
  then show ?case by (simp add: Let_def)
qed

lemma walk_le: "walk tza f c n es \<le> n + int (length es)"
proof (induction es arbitrary: c n)
  case Nil show ?case by simp
next
  case (Cons e es)
  have "walk tza f (setDateMinus tza (saveDate e) (expectedGap f)) (n + 1) es \<le> n + 1 + int (length es)"
    by (rule Cons.IH)
  then show ?case by (simp add: Let_def)
qed

lemma length_sortedEntries: "length (sortedEntries es) = length es"
  by (simp add: sortedEntries_def)

lemma calcCurrentStreak_bounds:
  "0 \<le> calcCurrentStreak tza t f es \<and> calcCurrentStreak tza t f es \<le> int (length es)"
  using walk_ge[of 0 tza f t "sortedEntries es"] walk_le[of tza f t 0 "sortedEntries es"]
  by (simp add: calcCurrentStreak_def length_sortedEntries)

lemma firstRow_map: "firstRow (map f xs) = map_option f (firstRow xs)"
  by (cases xs) (simp_all add: firstRow_def)

lemma filter_key_map:
  assumes "\<And>r. k (g r) = k r"
  shows "filter k (map g t) = map g (filter k t)"
  using assms by (induction t) auto

lemma updateStreakProgress_None:
  "getSavingsStreak sid u d = None \<Longrightarrow> updateStreakProgress tza today sid u d = (None, d)"
  by (simp add: updateStreakProgress_def)

lemma updateStreakProgress_Some:
  assumes "getSavingsStreak sid u d = Some s"
  shows "updateStreakProgress tza today sid u d =
           (Some (progressRow tza today s (getStreakEntries sid d) s),
            d\<lparr>savingsStreaks := map (\<lambda>r. if and' (eqId sid) (eqUserId u) r
                 then progressRow tza today s (getStreakEntries sid d) r else r) (savingsStreaks d)\<rparr>)"
  using assms
  by (simp add: updateStreakProgress_def updateWhere_def Let_def firstRow_map progressRow_def
        getSavingsStreak_def selectWhere_def)

lemma key_progressRow:
  "and' (eqId i) (eqUserId v) (progressRow tza today s es r) = and' (eqId i) (eqUserId v) r"
  by (simp add: and'_def eqId_def eqUserId_def progressRow_def)

lemma getSavingsStreak_after_progress:
  "getSavingsStreak i v (d\<lparr>savingsStreaks := map (\<lambda>r. if and' (eqId sid) (eqUserId u) r
                 then progressRow tza today s es r else r) (savingsStreaks d)\<rparr>)
   = map_option (\<lambda>r. if and' (eqId sid) (eqUserId u) r then progressRow tza today s es r else r)
       (getSavingsStreak i v d)"
proof -
  let ?g = "\<lambda>r. if and' (eqId sid) (eqUserId u) r then progressRow tza today s es r else r"
  have "\<And>r. and' (eqId i) (eqUserId v) (?g r) = and' (eqId i) (eqUserId v) r"
    by (simp add: key_progressRow)
  then have "filter (and' (eqId i) (eqUserId v)) (map ?g (savingsStreaks d))
             = map ?g (filter (and' (eqId i) (eqUserId v)) (savingsStreaks d))"
    by (rule filter_key_map)
  then show ?thesis
    by (simp add: getSavingsStreak_def selectWhere_def firstRow_map)
qed

lemma firstRow_Some_mem: "firstRow xs = Some x \<Longrightarrow> x \<in> set xs"
  by (cases xs) (simp_all add: firstRow_def)

lemma firstRow_filter_Some: "firstRow (filter p t) = Some x \<Longrightarrow> p x \<and> x \<in> set t"
  using firstRow_Some_mem[of "filter p t" x] by simp

lemma getSavingsStreak_key:
  "getSavingsStreak i v d = Some s \<Longrightarrow> and' (eqId i) (eqUserId v) s"
  using firstRow_filter_Some[of "and' (eqId i) (eqUserId v)" "savingsStreaks d" s]
  by (simp add: getSavingsStreak_def selectWhere_def)

lemma getStreakEntries_streaks_upd [simp]:
  "getStreakEntries sid (d\<lparr>savingsStreaks := t\<rparr>) = getStreakEntries sid d"
  by (simp add: getStreakEntries_def)

text \<open>One recomputation, seen through \<open>getSavingsStreak\<close>.\<close>

lemma progress_persisted:
  assumes "getSavingsStreak sid u d = Some s"
  shows "fst (updateStreakProgress tza today sid u d) = Some (progressRow tza today s (getStreakEntries sid d) s)
       \<and> getSavingsStreak sid u (snd (updateStreakProgress tza today sid u d))
           = Some (progressRow tza today s (getStreakEntries sid d) s)
       \<and> getStreakEntries sid (snd (updateStreakProgress tza today sid u d)) = getStreakEntries sid d"
  using assms getSavingsStreak_key[OF assms]
  by (simp add: updateStreakProgress_Some getSavingsStreak_after_progress)

lemma progress_other:
  assumes "getSavingsStreak i v d = Some r" "(i, v) \<noteq> (sid, u)"
  shows "getSavingsStreak i v (snd (updateStreakProgress tza today sid u d)) = Some r"
proof (cases "getSavingsStreak sid u d")
  case None then show ?thesis using assms by (simp add: updateStreakProgress_None)
next
  case (Some s)
  have "\<not> and' (eqId sid) (eqUserId u) r"
    using getSavingsStreak_key[OF assms(1)] assms(2) by (auto simp: and'_def eqId_def eqUserId_def)
  then show ?thesis using Some assms(1)
    by (simp add: updateStreakProgress_Some getSavingsStreak_after_progress)
qed

lemma getSavingsStreak_entries_upd [simp]:
  "getSavingsStreak i v (d\<lparr>streakEntries := t\<rparr>) = getSavingsStreak i v d"
  by (simp add: getSavingsStreak_def)

lemma addStreakEntry_streaks [simp]:
  "getSavingsStreak i v (snd (addStreakEntry now e d)) = getSavingsStreak i v d"
  by (simp add: addStreakEntry_def Let_def getSavingsStreak_def)

lemma post_longest_mono:
  assumes "getSavingsStreak i v d = Some r"
  shows "\<exists>r'. getSavingsStreak i v (snd (postStreakEntryRoute tza now u sid body d)) = Some r'
            \<and> longestStreak r \<le> longestStreak r'"
proof (cases "getSavingsStreak sid u d")
  case None then show ?thesis using assms by (simp add: postStreakEntryRoute_def)
next
  case (Some s)
  show ?thesis
  proof (cases body)
    case None then show ?thesis using assms Some by (simp add: postStreakEntryRoute_def)
  next
    case (Some b)
    obtain a sd where b: "b = (a, sd)" by (cases b)
    let ?e = "\<lparr>insert_streak_entry.streakId = sid, insert_streak_entry.amount = a,
               insert_streak_entry.saveDate = sd\<rparr>"
    let ?d1 = "snd (addStreakEntry now ?e d)"
    have d': "snd (postStreakEntryRoute tza now u sid body d) = snd (updateStreakProgress tza now sid u ?d1)"
      using \<open>getSavingsStreak sid u d = Some s\<close> Some b
      by (simp add: postStreakEntryRoute_def Let_def split: prod.splits)
    have g1: "getSavingsStreak i v ?d1 = Some r" using assms by simp
    show ?thesis
    proof (cases "(i, v) = (sid, u)")
      case True
      then have "getSavingsStreak sid u ?d1 = Some r" using g1 by simp
      from progress_persisted[OF this, of tza now] True show ?thesis
        unfolding d' by (simp add: progressRow_def)
    next
      case False
      from progress_other[OF g1 False, of tza now] show ?thesis unfolding d' by simp
    qed
  qed
qed

lemma posts_longest_mono:
  "getSavingsStreak i v d = Some r \<Longrightarrow>
   \<exists>r'. getSavingsStreak i v (postStreakEntries tza reqs d) = Some r' \<and> longestStreak r \<le> longestStreak r'"
proof (induction reqs arbitrary: d r)
  case Nil then show ?case by simp
next
  case (Cons q reqs)
  obtain now u sid body where q: "q = (now, u, sid, body)" by (cases q)
  from post_longest_mono[OF Cons.prems, of tza now u sid body]
  obtain r1 where r1: "getSavingsStreak i v (snd (postStreakEntryRoute tza now u sid body d)) = Some r1"
     "longestStreak r \<le> longestStreak r1" by blast
  from Cons.IH[OF r1(1)] r1(2) show ?case unfolding q by (auto intro: order_trans)
qed

lemma walk_gap_cong: "expectedGap f = expectedGap g \<Longrightarrow> walk tza f c n es = walk tza g c n es"
  by (induction es arbitrary: c n) (simp_all add: Let_def)

lemma example_get: "getSavingsStreak 1 ''alice'' exampleDb = Some exampleStreak"
  by (simp add: getSavingsStreak_def selectWhere_def firstRow_def and'_def eqId_def eqUserId_def
        exampleDb_def exampleStreak_def emptyDb_def)

lemma example_entries: "getStreakEntries 1 exampleDb = []"
  by (simp add: getStreakEntries_def selectWhere_def exampleDb_def emptyDb_def)

lemma yearly_get: "getSavingsStreak 1 ''alice'' yearlyDb = Some yearlyStreak"
  by (simp add: getSavingsStreak_def selectWhere_def firstRow_def and'_def eqId_def eqUserId_def
        yearlyDb_def yearlyStreak_def exampleStreak_def emptyDb_def)

text \<open>
  A stored \<^verbatim>\<open>longestStreak\<close> is never negative: a new row gets the default 0 and a
  recomputation writes a value that is at least the count it has just made.
\<close>

lemma created_longestStreak: "longestStreak (fst (createSavingsStreak now streak d)) = 0"
  by (simp add: createSavingsStreak_def Let_def)

lemma recomputed_longestStreak_nonneg:
  "fst (updateStreakProgress tza today sid u d) = Some s' \<Longrightarrow> 0 \<le> longestStreak s'"
proof (cases "getSavingsStreak sid u d")
  case None
  assume "fst (updateStreakProgress tza today sid u d) = Some s'"
  with None show ?thesis by (simp add: updateStreakProgress_None)
next
  case (Some s)
  assume a: "fst (updateStreakProgress tza today sid u d) = Some s'"
  from progress_persisted[OF Some, of tza today] a
  have "s' = progressRow tza today s (getStreakEntries sid d) s" by simp
  then have "longestStreak s' = max (calcCurrentStreak tza today (frequency s) (getStreakEntries sid d))
                                   (longestStreak s)"
    by (simp add: progressRow_def)
  then show ?thesis
    using calcCurrentStreak_bounds[of tza today "frequency s" "getStreakEntries sid d"]
    by linarith
qed

subsection \<open>The longest streak only grows\<close>

text \<open>
  C2: for a streak that its owner can read, a recomputation returns and stores a row whose
  \<^verbatim>\<open>longestStreak\<close> is the larger of the count it has just made and the value stored
  before, so it is not below that value; and along any run of entry additions (to this
  streak or to any other, by any user) the stored \<^verbatim>\<open>longestStreak\<close> of the streak after a
  longer run is not below the one after a shorter run, which is not below the initial one.
\<close>

theorem longestStreak_ratchet:
  assumes "getSavingsStreak sid u d = Some s"
  shows "(\<exists>s'. fst (updateStreakProgress tza today sid u d) = Some s'
            \<and> getSavingsStreak sid u (snd (updateStreakProgress tza today sid u d)) = Some s'
            \<and> longestStreak s' = max (currentStreak s') (longestStreak s)
            \<and> longestStreak s \<le> longestStreak s')
       \<and> (\<exists>s1 s2. getSavingsStreak sid u (postStreakEntries tza reqs1 d) = Some s1
            \<and> getSavingsStreak sid u (postStreakEntries tza (reqs1 @ reqs2) d) = Some s2
            \<and> longestStreak s \<le> longestStreak s1 \<and> longestStreak s1 \<le> longestStreak s2)"
proof
  from progress_persisted[OF assms, of tza today]
  show "\<exists>s'. fst (updateStreakProgress tza today sid u d) = Some s'
            \<and> getSavingsStreak sid u (snd (updateStreakProgress tza today sid u d)) = Some s'
            \<and> longestStreak s' = max (currentStreak s') (longestStreak s)
            \<and> longestStreak s \<le> longestStreak s'"
    by (simp add: progressRow_def)
next
  have app: "\<And>d. postStreakEntries tza (reqs1 @ reqs2) d = postStreakEntries tza reqs2 (postStreakEntries tza reqs1 d)"
    by (induction reqs1) auto
  from posts_longest_mono[OF assms, of tza reqs1]
  obtain s1 where s1: "getSavingsStreak sid u (postStreakEntries tza reqs1 d) = Some s1"
      "longestStreak s \<le> longestStreak s1" by blast
  from posts_longest_mono[OF s1(1), of tza reqs2]
  obtain s2 where s2: "getSavingsStreak sid u (postStreakEntries tza reqs2 (postStreakEntries tza reqs1 d)) = Some s2"
      "longestStreak s1 \<le> longestStreak s2" by blast
  show "\<exists>s1 s2. getSavingsStreak sid u (postStreakEntries tza reqs1 d) = Some s1
            \<and> getSavingsStreak sid u (postStreakEntries tza (reqs1 @ reqs2) d) = Some s2
            \<and> longestStreak s \<le> longestStreak s1 \<and> longestStreak s1 \<le> longestStreak s2"
    using s1 s2 by (simp add: app)
qed

theorem longestStreak_ratchet_witness:
  "getSavingsStreak 1 ''alice'' exampleDb = Some exampleStreak
   \<and> (\<exists>s1 s2. getSavingsStreak 1 ''alice''
          (postStreakEntries utc [(1000, ''alice'', 1, Some (ofInt 5, 900))] exampleDb) = Some s1
        \<and> getSavingsStreak 1 ''alice''
          (postStreakEntries utc ([(1000, ''alice'', 1, Some (ofInt 5, 900))] @ []) exampleDb) = Some s2
        \<and> longestStreak exampleStreak \<le> longestStreak s1 \<and> longestStreak s1 \<le> longestStreak s2)"
  using longestStreak_ratchet[OF example_get, of utc 1000 "[(1000, ''alice'', 1, Some (ofInt 5, 900))]" "[]"]
    example_get by blast

subsection \<open>A streak without entries\<close>

text \<open>
  C5: for a streak that has no entries, a recomputation returns and stores a row with
  \<^verbatim>\<open>currentStreak\<close> 0, \<^verbatim>\<open>totalSaved\<close> 0, no \<^verbatim>\<open>lastSaveDate\<close>, and the \<^verbatim>\<open>longestStreak\<close> that
  was stored before. The stored value is one the program can have written, that is not
  negative (see \<open>created_longestStreak\<close> and \<open>recomputed_longestStreak_nonneg\<close>).
\<close>

theorem zero_entries:
  assumes "getSavingsStreak sid u d = Some s" and "getStreakEntries sid d = []"
    and "0 \<le> longestStreak s"
  shows "\<exists>s'. fst (updateStreakProgress tza today sid u d) = Some s'
            \<and> getSavingsStreak sid u (snd (updateStreakProgress tza today sid u d)) = Some s'
            \<and> currentStreak s' = 0 \<and> totalSaved s' = JNum (Fin 0) \<and> lastSaveDate s' = None
            \<and> longestStreak s' = longestStreak s"
  using progress_persisted[OF assms(1), of tza today] assms(2,3)
  by (simp add: progressRow_def calcCurrentStreak_def calcLastSaveDate_def sumAmounts_def
        sortedEntries_def)

theorem zero_entries_witness:
  "getSavingsStreak 1 ''alice'' exampleDb = Some exampleStreak \<and> getStreakEntries 1 exampleDb = []
   \<and> 0 \<le> longestStreak exampleStreak
   \<and> (\<exists>s'. fst (updateStreakProgress utc 1000 1 ''alice'' exampleDb) = Some s'
            \<and> currentStreak s' = 0 \<and> totalSaved s' = JNum (Fin 0) \<and> lastSaveDate s' = None
            \<and> longestStreak s' = longestStreak exampleStreak)"
proof -
  have h: "0 \<le> longestStreak exampleStreak" by (simp add: exampleStreak_def)
  from zero_entries[OF example_get example_entries h, of utc 1000] example_get example_entries h
  show ?thesis by blast
qed

subsection \<open>Frequencies other than weekly and monthly\<close>

text \<open>
  C9: a frequency that is neither "weekly" nor "monthly" has the expected gap 1, so the
  count made for it is the count made for "daily"; the route that creates a streak stores
  such a frequency as it is, and a recomputation of a streak with it stores the daily count.
\<close>

theorem other_frequency_is_daily:
  assumes "f \<noteq> ''weekly''" and "f \<noteq> ''monthly''"
  shows "expectedGap f = 1
       \<and> calcCurrentStreak tza today f entries = calcCurrentStreak tza today ''daily'' entries
       \<and> (\<exists>streak d'. postStreakRoute now (Some (ins\<lparr>insert_savings_streak.frequency := f\<rparr>)) d
                          = (Json 201 streak, d')
             \<and> frequency streak = f \<and> savingsStreaks d' = savingsStreaks d @ [streak])
       \<and> (getSavingsStreak sid u d = Some s \<and> frequency s = f \<longrightarrow>
            (\<exists>s'. fst (updateStreakProgress tza today sid u d) = Some s'
               \<and> currentStreak s' = calcCurrentStreak tza today ''daily'' (getStreakEntries sid d)))"
proof -
  have g: "expectedGap f = 1" using assms by (simp add: expectedGap_def)
  have gd: "expectedGap ''daily'' = 1" by (simp add: expectedGap_def)
  have w: "\<And>es. calcCurrentStreak tza today f es = calcCurrentStreak tza today ''daily'' es"
    using walk_gap_cong[of f "''daily''"] g gd by (simp add: calcCurrentStreak_def)
  have c: "\<exists>streak d'. postStreakRoute now (Some (ins\<lparr>insert_savings_streak.frequency := f\<rparr>)) d
                          = (Json 201 streak, d')
             \<and> frequency streak = f \<and> savingsStreaks d' = savingsStreaks d @ [streak]"
    by (simp add: postStreakRoute_def createSavingsStreak_def Let_def)
  have p: "getSavingsStreak sid u d = Some s \<and> frequency s = f \<longrightarrow>
            (\<exists>s'. fst (updateStreakProgress tza today sid u d) = Some s'
               \<and> currentStreak s' = calcCurrentStreak tza today ''daily'' (getStreakEntries sid d))"
  proof
    assume a: "getSavingsStreak sid u d = Some s \<and> frequency s = f"
    then have "getSavingsStreak sid u d = Some s" by simp
    from progress_persisted[OF this, of tza today] a w
    show "\<exists>s'. fst (updateStreakProgress tza today sid u d) = Some s'
               \<and> currentStreak s' = calcCurrentStreak tza today ''daily'' (getStreakEntries sid d)"
      by (simp add: progressRow_def)
  qed
  from g w c p show ?thesis by blast
qed

theorem other_frequency_is_daily_witness:
  "''yearly'' \<noteq> ''weekly'' \<and> ''yearly'' \<noteq> ''monthly'' \<and> expectedGap ''yearly'' = 1
   \<and> getSavingsStreak 1 ''alice'' yearlyDb = Some yearlyStreak \<and> frequency yearlyStreak = ''yearly''
   \<and> (\<exists>s'. fst (updateStreakProgress utc 1000 1 ''alice'' yearlyDb) = Some s'
          \<and> currentStreak s' = calcCurrentStreak utc 1000 ''daily'' (getStreakEntries 1 yearlyDb))"
proof -
  have h1: "''yearly'' \<noteq> ''weekly''" and h2: "''yearly'' \<noteq> ''monthly''" by simp_all
  have h3: "frequency yearlyStreak = ''yearly''" by (simp add: yearlyStreak_def)
  note t = other_frequency_is_daily[OF h1 h2, where tza = utc and today = 1000 and entries = "[]" and now = 0
      and ins = exampleInsert and d = yearlyDb and sid = 1 and u = "''alice''" and s = yearlyStreak]
  have g: "expectedGap ''yearly'' = 1" by (rule t[THEN conjunct1])
  have "getSavingsStreak 1 ''alice'' yearlyDb = Some yearlyStreak \<and> frequency yearlyStreak = ''yearly''"
    using yearly_get h3 by (rule conjI)
  then have e: "\<exists>s'. fst (updateStreakProgress utc 1000 1 ''alice'' yearlyDb) = Some s'
          \<and> currentStreak s' = calcCurrentStreak utc 1000 ''daily'' (getStreakEntries 1 yearlyDb)"
    by (rule t[THEN conjunct2, THEN conjunct2, THEN conjunct2, THEN mp])
  show ?thesis using h1 h2 g yearly_get h3 e by (intro conjI)
qed

subsection \<open>The walk counts a prefix of the sorted entries\<close>

lemma counted_Cons_Suc:
  "counted tza f c (e # es) (Suc i) = counted tza f (setDateMinus tza (saveDate e) (expectedGap f)) es i"
  by (cases i) (simp_all add: counted_def cursorAt_def)

lemma counted_Cons_0: "counted tza f c (e # es) 0 = (daysDiff c (saveDate e) \<le> expectedGap f)"
  by (simp add: counted_def cursorAt_def)

lemma walk_char:
  "\<exists>k\<le>length es. walk tza f c n es = n + int k \<and> (\<forall>i<k. counted tza f c es i)
       \<and> (k < length es \<longrightarrow> \<not> counted tza f c es k)"
proof (induction es arbitrary: c n)
  case Nil show ?case by simp
next
  case (Cons e es)
  show ?case
  proof (cases "daysDiff c (saveDate e) \<le> expectedGap f")
    case False
    then have "walk tza f c n (e # es) = n + int 0" by (simp add: Let_def)
    moreover have "\<not> counted tza f c (e # es) 0" using False by (simp add: counted_Cons_0)
    ultimately show ?thesis by (intro exI[of _ 0]) simp
  next
    case True
    let ?c = "setDateMinus tza (saveDate e) (expectedGap f)"
    from Cons.IH[of ?c "n + 1"] obtain k where k: "k \<le> length es"
        "walk tza f ?c (n + 1) es = n + 1 + int k" "\<forall>i<k. counted tza f ?c es i"
        "k < length es \<longrightarrow> \<not> counted tza f ?c es k" by blast
    have w: "walk tza f c n (e # es) = n + int (Suc k)" using True k(2) by (simp add: Let_def)
    have a: "\<forall>i<Suc k. counted tza f c (e # es) i"
    proof (intro allI impI)
      fix i assume "i < Suc k"
      then show "counted tza f c (e # es) i"
        using True k(3) by (cases i) (simp_all add: counted_Cons_0 counted_Cons_Suc)
    qed
    have b: "Suc k < length (e # es) \<longrightarrow> \<not> counted tza f c (e # es) (Suc k)"
      using k(4) by (simp add: counted_Cons_Suc)
    from k(1) w a b show ?thesis by (intro exI[of _ "Suc k"]) simp
  qed
qed

lemma calc_char:
  "\<exists>k\<le>length es. calcCurrentStreak tza today f es = int k
      \<and> (\<forall>i<k. counted tza f today (sortedEntries es) i)
      \<and> (k < length es \<longrightarrow> \<not> counted tza f today (sortedEntries es) k)"
proof -
  from walk_char[of "sortedEntries es" tza f today 0]
  obtain k where k: "k \<le> length (sortedEntries es)" "walk tza f today 0 (sortedEntries es) = 0 + int k"
     "\<forall>i<k. counted tza f today (sortedEntries es) i"
     "k < length (sortedEntries es) \<longrightarrow> \<not> counted tza f today (sortedEntries es) k" by blast
  have "calcCurrentStreak tza today f es = int k"
  proof (cases "sortedEntries es = []")
    case True then show ?thesis using k(1) by (simp add: calcCurrentStreak_def)
  next
    case False then show ?thesis using k(2) by (simp add: calcCurrentStreak_def)
  qed
  then show ?thesis using k by (intro exI[of _ k]) (simp add: length_sortedEntries)
qed

lemma daysDiff_le_iff: "daysDiff c e \<le> g \<longleftrightarrow> c - e < (g + 1) * msPerDay"
proof -
  define x where "x = c - e"
  define q where "q = x div 86400000"
  define r where "r = x mod 86400000"
  have x: "x = 86400000 * q + r" by (simp add: q_def r_def)
  have r: "0 \<le> r" "r < 86400000" by (simp_all add: r_def)
  have "q \<le> g \<longleftrightarrow> x < (g + 1) * 86400000" using x r by auto
  then show ?thesis by (simp add: daysDiff_def msPerDay_def x_def q_def)
qed

lemma daysDiff_shift:
  assumes "t \<le> n" and "n < t + msPerDay"
  shows "daysDiff n (t - k * msPerDay) = k"
proof -
  have a: "daysDiff n (t - k * msPerDay) \<le> k \<longleftrightarrow> n - (t - k * msPerDay) < (k + 1) * msPerDay"
    by (rule daysDiff_le_iff)
  have b: "daysDiff n (t - k * msPerDay) \<le> k - 1
             \<longleftrightarrow> n - (t - k * msPerDay) < (k - 1 + 1) * msPerDay"
    by (rule daysDiff_le_iff)
  have "n - (t - k * msPerDay) < (k + 1) * msPerDay"
    using assms by (simp add: algebra_simps)
  moreover have "\<not> n - (t - k * msPerDay) < (k - 1 + 1) * msPerDay"
    using assms by (simp add: algebra_simps)
  ultimately show ?thesis using a b by linarith
qed

lemma gap_daily: "expectedGap ''daily'' = 1"
  by (simp add: expectedGap_def)

text \<open>
  Where any two offsets of local time differ by at most \<open>m\<close> (the largest daylight-saving
  shift; 0 where there is none), the step back by \<open>g\<close> calendar days is within \<open>m\<close> of \<open>g\<close>
  days of 24 hours.
\<close>

lemma setDateMinus_bounds:
  assumes "\<forall>x b y c. \<bar>tza x b - tza y c\<bar> \<le> m"
  shows "\<bar>setDateMinus tza t g - (t - g * msPerDay)\<bar> \<le> m"
proof -
  let ?n = "t + tza t True - g * msPerDay"
  have "setDateMinus tza t g - (t - g * msPerDay) = tza t True - tza ?n False"
    by (simp add: setDateMinus_def Let_def)
  moreover have "\<bar>tza t True - tza ?n False\<bar> \<le> m" using assms by blast
  ultimately show ?thesis by simp
qed

lemma setDateMinus_utc: "setDateMinus utc t g = t - g * msPerDay"
  by (simp add: setDateMinus_def utc_def)

lemma sortedEntries_sorted: "sorted (map (\<lambda>e. - saveDate e) (sortedEntries es))"
  by (simp add: sortedEntries_def)

lemma sortedEntries_mset: "mset (sortedEntries es) = mset es"
  by (simp add: sortedEntries_def)

lemma sortedEntries_stable:
  "filter (\<lambda>e. saveDate e = k) (sortedEntries es) = filter (\<lambda>e. saveDate e = k) es"
  using sort_key_stable[of "\<lambda>e. - saveDate e" "- k" es] by (simp add: sortedEntries_def)

lemma sorted_dates:
  assumes "mset (map g es) = mset ds" and "sorted (map uminus ds)"
    and "\<And>a b. saveDate a \<le> saveDate b \<Longrightarrow> g a \<le> (g b :: int)"
  shows "map g (sortedEntries es) = ds"
proof -
  let ?xs = "map (\<lambda>e. - g e) (sortedEntries es)"
  have "sorted_wrt (\<lambda>x y. - saveDate x \<le> - saveDate y) (sortedEntries es)"
    using sortedEntries_sorted[of es] by (simp add: sorted_map)
  then have "sorted_wrt (\<lambda>x y. - g x \<le> - g y) (sortedEntries es)"
    by (rule sorted_wrt_mono_rel[rotated]) (simp add: assms(3))
  then have sx: "sorted ?xs" by (simp add: sorted_map)
  have "mset ?xs = image_mset uminus (mset (map g (sortedEntries es)))"
    by (simp add: multiset.map_comp comp_def)
  also have "\<dots> = image_mset uminus (mset (map g es))"
    by (simp add: sortedEntries_mset)
  also have "\<dots> = mset (map uminus ds)"
    unfolding assms(1) by simp
  finally have m: "mset ?xs = mset (map uminus ds)" .
  from properties_for_sort[OF m sx] have "sort (map uminus ds) = ?xs" .
  moreover have "sort (map uminus ds) = map uminus ds" using assms(2) by (rule sort_key_id_if_sorted[of "\<lambda>x. x", simplified])
  ultimately have "map uminus ?xs = map uminus (map uminus ds)" by simp
  then show ?thesis by (simp add: comp_def)
qed

lemma counted_daily_0:
  "counted tza ''daily'' today es 0 \<longleftrightarrow> today - saveDate (es ! 0) < 2 * msPerDay"
  using daysDiff_le_iff[of today "saveDate (es ! 0)" 1]
  by (simp add: counted_def cursorAt_def gap_daily)

lemma counted_daily_Suc:
  assumes "\<forall>x b y c. \<bar>tza x b - tza y c\<bar> \<le> m"
  shows "saveDate (es ! j) - saveDate (es ! Suc j) < 3 * msPerDay - m
           \<Longrightarrow> counted tza ''daily'' today es (Suc j)"
    and "3 * msPerDay + m \<le> saveDate (es ! j) - saveDate (es ! Suc j)
           \<Longrightarrow> \<not> counted tza ''daily'' today es (Suc j)"
proof -
  let ?c = "setDateMinus tza (saveDate (es ! j)) 1"
  have b: "\<bar>?c - (saveDate (es ! j) - 1 * msPerDay)\<bar> \<le> m"
    using assms by (rule setDateMinus_bounds)
  have c: "counted tza ''daily'' today es (Suc j) \<longleftrightarrow> ?c - saveDate (es ! Suc j) < 2 * msPerDay"
    using daysDiff_le_iff[of ?c "saveDate (es ! Suc j)" 1]
    by (simp add: counted_def cursorAt_def gap_daily)
  show "saveDate (es ! j) - saveDate (es ! Suc j) < 3 * msPerDay - m
           \<Longrightarrow> counted tza ''daily'' today es (Suc j)"
    unfolding c using b by linarith
  show "3 * msPerDay + m \<le> saveDate (es ! j) - saveDate (es ! Suc j)
           \<Longrightarrow> \<not> counted tza ''daily'' today es (Suc j)"
    unfolding c using b by linarith
qed

lemma dayOf_bounds: "dayOf z t * msPerDay \<le> t + z \<and> t + z < (dayOf z t + 1) * msPerDay"
proof -
  define x where "x = t + z"
  define q where "q = x div 86400000"
  define r where "r = x mod 86400000"
  have x: "x = 86400000 * q + r" by (simp add: q_def r_def)
  have r: "0 \<le> r" "r < 86400000" by (simp_all add: r_def)
  have "q * 86400000 \<le> x \<and> x < (q + 1) * 86400000" using x r by auto
  then show ?thesis by (simp add: dayOf_def msPerDay_def x_def q_def)
qed

lemma dayOf_mono: "a \<le> b \<Longrightarrow> dayOf z a \<le> dayOf z b"
  by (simp add: dayOf_def msPerDay_def zdiv_mono1)

lemma consecutive_days:
  assumes "mset (map (\<lambda>e. dayOf z (saveDate e)) entries)
             = mset (map (\<lambda>i. latest - int i) [0..<length entries])"
    and "Suc j < length entries"
  shows "saveDate (sortedEntries entries ! j) - saveDate (sortedEntries entries ! Suc j) < 2 * msPerDay"
proof -
  let ?ds = "map (\<lambda>i. latest - int i) [0..<length entries]"
  have s: "sorted (map uminus ?ds)"
    by (simp add: sorted_map comp_def sorted_wrt_iff_nth_less)
  have "map (\<lambda>e. dayOf z (saveDate e)) (sortedEntries entries) = ?ds"
    using assms(1) s by (rule sorted_dates) (rule dayOf_mono)
  then have n: "\<And>i. i < length entries \<Longrightarrow>
       dayOf z (saveDate (sortedEntries entries ! i)) = latest - int i"
    using nth_map[of _ "sortedEntries entries" "\<lambda>e. dayOf z (saveDate e)"]
    by (simp add: length_sortedEntries)
  have a: "dayOf z (saveDate (sortedEntries entries ! j)) = latest - int j"
    using assms(2) by (intro n) simp
  have b: "dayOf z (saveDate (sortedEntries entries ! Suc j)) = latest - int (Suc j)"
    using assms(2) by (intro n)
  from dayOf_bounds[of z "saveDate (sortedEntries entries ! j)"]
    dayOf_bounds[of z "saveDate (sortedEntries entries ! Suc j)"]
  show ?thesis unfolding a b by (simp add: algebra_simps msPerDay_def)
qed

lemma daily_run:
  assumes "\<forall>x b y c. \<bar>tza x b - tza y c\<bar> \<le> msPerDay"
    and "mset (map (\<lambda>e. dayOf z (saveDate e)) entries)
           = mset (map (\<lambda>i. latest - int i) [0..<length entries])"
    and "today - saveDate (sortedEntries entries ! 0) < 2 * msPerDay"
  shows "calcCurrentStreak tza today ''daily'' entries = int (length entries)"
proof -
  from calc_char[of entries tza today "''daily''"]
  obtain k where k: "k \<le> length entries" "calcCurrentStreak tza today ''daily'' entries = int k"
    "k < length entries \<longrightarrow> \<not> counted tza ''daily'' today (sortedEntries entries) k" by blast
  have "\<not> k < length entries"
  proof
    assume lt: "k < length entries"
    have "counted tza ''daily'' today (sortedEntries entries) k"
    proof (cases k)
      case 0
      then show ?thesis using assms(3) by (simp add: counted_daily_0)
    next
      case (Suc j)
      then have "Suc j < length entries" using lt by simp
      with assms(2)
      have "saveDate (sortedEntries entries ! j) - saveDate (sortedEntries entries ! Suc j)
              < 2 * msPerDay" by (rule consecutive_days)
      then have "saveDate (sortedEntries entries ! j) - saveDate (sortedEntries entries ! Suc j)
              < 3 * msPerDay - msPerDay" by simp
      with assms(1) show ?thesis unfolding Suc by (rule counted_daily_Suc(1))
    qed
    with k(3) lt show False by simp
  qed
  with k(1,2) show ?thesis by simp
qed

lemma daily_stale:
  assumes "2 * msPerDay \<le> today - saveDate (sortedEntries entries ! 0)"
  shows "calcCurrentStreak tza today ''daily'' entries = 0"
proof -
  from calc_char[of entries tza today "''daily''"]
  obtain k where k: "calcCurrentStreak tza today ''daily'' entries = int k"
    "\<forall>i<k. counted tza ''daily'' today (sortedEntries entries) i" by blast
  have "k = 0"
  proof (rule ccontr)
    assume "k \<noteq> 0"
    then have "counted tza ''daily'' today (sortedEntries entries) 0" using k(2) by simp
    then show False using assms by (simp add: counted_daily_0)
  qed
  then show ?thesis using k(1) by simp
qed

lemma daily_break:
  assumes "\<forall>x b y c. \<bar>tza x b - tza y c\<bar> \<le> m"
    and "3 * msPerDay + m
           \<le> saveDate (sortedEntries entries ! j) - saveDate (sortedEntries entries ! Suc j)"
  shows "calcCurrentStreak tza today ''daily'' entries \<le> int j + 1"
proof -
  from calc_char[of entries tza today "''daily''"]
  obtain k where k: "calcCurrentStreak tza today ''daily'' entries = int k"
    "\<forall>i<k. counted tza ''daily'' today (sortedEntries entries) i" by blast
  have "\<not> Suc j < k"
  proof
    assume "Suc j < k"
    then have "counted tza ''daily'' today (sortedEntries entries) (Suc j)" using k(2) by simp
    moreover have "\<not> counted tza ''daily'' today (sortedEntries entries) (Suc j)"
      using assms by (rule counted_daily_Suc(2))
    ultimately show False by simp
  qed
  then show ?thesis using k(1) by simp
qed

lemma cursor_step:
  assumes "\<forall>x b y c. \<bar>tza x b - tza y c\<bar> \<le> m"
  shows "\<bar>cursorAt tza f today es (Suc i) - (saveDate (es ! i) - expectedGap f * msPerDay)\<bar> \<le> m"
  using setDateMinus_bounds[OF assms, of "saveDate (es ! i)" "expectedGap f"]
  by (simp add: cursorAt_def)

lemma sorted_ex1: "sortedEntries [entryOn 5, entryOn 4] = [entryOn 5, entryOn 4]"
  by (simp add: sortedEntries_def entryOn_def msPerDay_def)

lemma sorted_ex2: "sortedEntries [entryOn 8, entryOn 10] = [entryOn 10, entryOn 8]"
  by (simp add: sortedEntries_def entryOn_def msPerDay_def)

lemma sorted_ex3: "sortedEntries [entryOn 9, entryOn 10] = [entryOn 10, entryOn 9]"
  by (simp add: sortedEntries_def entryOn_def msPerDay_def)

lemma sorted_ex4: "sortedEntries [entryOn 10, entryOn 7] = [entryOn 10, entryOn 7]"
  by (simp add: sortedEntries_def entryOn_def msPerDay_def)

lemma utc_shift: "\<forall>x b y c. \<bar>utc x b - utc y c\<bar> \<le> 0"
  by (simp add: utc_def)

text \<open>
  The margin \<open>m\<close> is needed. On a server whose clocks have gone back an hour at the instant
  0, an entry at noon of the day after and one exactly three days before it are both
  counted: the cursor, one calendar day before the first, is 25 hours before it.
\<close>

lemma daily_break_shift:
  "saveDate (entryAt (msPerDay div 2)) - saveDate (entryAt (msPerDay div 2 - 3 * msPerDay)) = 3 * msPerDay
   \<and> calcCurrentStreak fallBack (msPerDay div 2) ''daily''
         [entryAt (msPerDay div 2), entryAt (msPerDay div 2 - 3 * msPerDay)] = 2
   \<and> calcCurrentStreak utc (msPerDay div 2) ''daily''
         [entryAt (msPerDay div 2), entryAt (msPerDay div 2 - 3 * msPerDay)] = 1"
proof -
  have s: "sortedEntries [entryAt (msPerDay div 2), entryAt (msPerDay div 2 - 3 * msPerDay)]
             = [entryAt (msPerDay div 2), entryAt (msPerDay div 2 - 3 * msPerDay)]"
    by (simp add: sortedEntries_def entryAt_def msPerDay_def)
  have c: "setDateMinus fallBack (msPerDay div 2) 1 = msPerDay div 2 - msPerDay - 3600000"
    by (simp add: setDateMinus_def fallBack_def msPerDay_def)
  show ?thesis
    unfolding calcCurrentStreak_def s
    by (simp add: gap_daily entryAt_def Let_def c setDateMinus_utc) (simp add: daysDiff_def msPerDay_def)
qed

text \<open>
  C1, as amended. The entries are walked most recent first: the sorted list holds the
  entries of the streak, each as often as the store returned it, and its dates do not
  increase. The count a recomputation makes and stores is the length \<open>k\<close> of the longest
  prefix of the sorted entries in which every entry is within the window of its cursor: the
  \<open>k\<close> first entries are counted, the entry after them (if there is one) is the first that
  is not, and nothing after it is counted. The cursor after an entry is the date of that
  entry moved back by the expected gap in calendar days of the server: it is within \<open>m\<close> of
  the date less that many days of 24 hours, where \<open>m\<close> bounds the difference of any two
  offsets of the server's local time (0 for a server without daylight saving).

  For a daily streak: entries that fall on consecutive days of one calendar, one entry a
  day and in any stored order, are all counted when the most recent of them is less than
  two days before the clock reading (on any server whose offsets differ by at most a day);
  when the most recent entry is two days or more before the clock reading nothing is
  counted; and an entry that is three days and \<open>m\<close> or more older than the entry before it
  stops the count at that entry.
\<close>

theorem walk_counts_prefix:
  "sorted (map (\<lambda>e. - saveDate e) (sortedEntries entries))
   \<and> mset (sortedEntries entries) = mset entries
   \<and> (\<exists>k\<le>length entries. calcCurrentStreak tza today f entries = int k
       \<and> (\<forall>i<k. counted tza f today (sortedEntries entries) i)
       \<and> (k < length entries \<longrightarrow> \<not> counted tza f today (sortedEntries entries) k))
   \<and> (getSavingsStreak sid u d = Some s \<longrightarrow>
        (\<exists>s'. fst (updateStreakProgress tza today sid u d) = Some s'
           \<and> currentStreak s' = calcCurrentStreak tza today (frequency s) (getStreakEntries sid d)))
   \<and> ((\<forall>x b y c. \<bar>tza x b - tza y c\<bar> \<le> m) \<longrightarrow>
        \<bar>cursorAt tza f today es (Suc i) - (saveDate (es ! i) - expectedGap f * msPerDay)\<bar> \<le> m)
   \<and> ((\<forall>x b y c. \<bar>tza x b - tza y c\<bar> \<le> msPerDay)
        \<and> mset (map (\<lambda>e. dayOf z (saveDate e)) entries)
            = mset (map (\<lambda>i. latest - int i) [0..<length entries])
        \<and> today - saveDate (sortedEntries entries ! 0) < 2 * msPerDay
        \<longrightarrow> calcCurrentStreak tza today ''daily'' entries = int (length entries))
   \<and> (2 * msPerDay \<le> today - saveDate (sortedEntries entries ! 0)
        \<longrightarrow> calcCurrentStreak tza today ''daily'' entries = 0)
   \<and> ((\<forall>x b y c. \<bar>tza x b - tza y c\<bar> \<le> m)
        \<and> 3 * msPerDay + m
             \<le> saveDate (sortedEntries entries ! j) - saveDate (sortedEntries entries ! Suc j)
        \<longrightarrow> calcCurrentStreak tza today ''daily'' entries \<le> int j + 1)"
proof -
  have p: "getSavingsStreak sid u d = Some s \<longrightarrow>
        (\<exists>s'. fst (updateStreakProgress tza today sid u d) = Some s'
           \<and> currentStreak s' = calcCurrentStreak tza today (frequency s) (getStreakEntries sid d))"
  proof
    assume a: "getSavingsStreak sid u d = Some s"
    from progress_persisted[OF a, of tza today]
    show "\<exists>s'. fst (updateStreakProgress tza today sid u d) = Some s'
           \<and> currentStreak s' = calcCurrentStreak tza today (frequency s) (getStreakEntries sid d)"
      by (simp add: progressRow_def)
  qed
  have c: "(\<forall>x b y c. \<bar>tza x b - tza y c\<bar> \<le> m) \<longrightarrow>
        \<bar>cursorAt tza f today es (Suc i) - (saveDate (es ! i) - expectedGap f * msPerDay)\<bar> \<le> m"
    using cursor_step[of tza m f today es i] by blast
  have r: "(\<forall>x b y c. \<bar>tza x b - tza y c\<bar> \<le> msPerDay)
        \<and> mset (map (\<lambda>e. dayOf z (saveDate e)) entries)
            = mset (map (\<lambda>i. latest - int i) [0..<length entries])
        \<and> today - saveDate (sortedEntries entries ! 0) < 2 * msPerDay
        \<longrightarrow> calcCurrentStreak tza today ''daily'' entries = int (length entries)"
    using daily_run[of tza z entries latest today] by blast
  have t: "2 * msPerDay \<le> today - saveDate (sortedEntries entries ! 0)
        \<longrightarrow> calcCurrentStreak tza today ''daily'' entries = 0"
    using daily_stale[of today entries tza] by blast
  have b: "(\<forall>x b y c. \<bar>tza x b - tza y c\<bar> \<le> m)
        \<and> 3 * msPerDay + m
             \<le> saveDate (sortedEntries entries ! j) - saveDate (sortedEntries entries ! Suc j)
        \<longrightarrow> calcCurrentStreak tza today ''daily'' entries \<le> int j + 1"
    using daily_break[of tza m entries j today] by blast
  from sortedEntries_sorted[of entries] sortedEntries_mset[of entries]
    calc_char[of entries tza today f] p c r t b
  show ?thesis by (intro conjI)
qed

theorem walk_counts_prefix_witness:
  "getSavingsStreak 1 ''alice'' exampleDb = Some exampleStreak
   \<and> (\<exists>s'. fst (updateStreakProgress utc 1000 1 ''alice'' exampleDb) = Some s'
         \<and> currentStreak s' = calcCurrentStreak utc 1000 (frequency exampleStreak) (getStreakEntries 1 exampleDb))
   \<and> (\<forall>x b y c. \<bar>utc x b - utc y c\<bar> \<le> 0)
   \<and> \<bar>cursorAt utc ''daily'' (10 * msPerDay) [entryOn 10, entryOn 9] (Suc 0)
        - (saveDate ([entryOn 10, entryOn 9] ! 0) - expectedGap ''daily'' * msPerDay)\<bar> \<le> 0
   \<and> (\<forall>x b y c. \<bar>utc x b - utc y c\<bar> \<le> msPerDay)
   \<and> mset (map (\<lambda>e. dayOf 0 (saveDate e)) [entryOn 9, entryOn 10])
        = mset (map (\<lambda>i. 10 - int i) [0..<length [entryOn 9, entryOn 10]])
   \<and> 10 * msPerDay + 5000 - saveDate (sortedEntries [entryOn 9, entryOn 10] ! 0) < 2 * msPerDay
   \<and> calcCurrentStreak utc (10 * msPerDay + 5000) ''daily'' [entryOn 9, entryOn 10] = 2
   \<and> 2 * msPerDay \<le> 10 * msPerDay - saveDate (sortedEntries [entryOn 5, entryOn 4] ! 0)
   \<and> calcCurrentStreak utc (10 * msPerDay) ''daily'' [entryOn 5, entryOn 4] = 0
   \<and> 3 * msPerDay + 0 \<le> saveDate (sortedEntries [entryOn 10, entryOn 7] ! 0)
                       - saveDate (sortedEntries [entryOn 10, entryOn 7] ! Suc 0)
   \<and> calcCurrentStreak utc (10 * msPerDay) ''daily'' [entryOn 10, entryOn 7] \<le> 1"
proof -
  note a = walk_counts_prefix[where sid = 1 and u = "''alice''" and d = exampleDb and s = exampleStreak
      and today = 1000 and tza = utc, THEN conjunct2, THEN conjunct2, THEN conjunct2, THEN conjunct1,
      THEN mp, OF example_get]
  have h0: "\<forall>x b y c. \<bar>utc x b - utc y c\<bar> \<le> 0" by (simp add: utc_def)
  note k = walk_counts_prefix[where tza = utc and m = 0 and f = "''daily''" and today = "10 * msPerDay"
      and es = "[entryOn 10, entryOn 9]" and i = 0, THEN conjunct2, THEN conjunct2, THEN conjunct2,
      THEN conjunct2, THEN conjunct1, THEN mp, OF h0]
  have hd: "\<forall>x b y c. \<bar>utc x b - utc y c\<bar> \<le> msPerDay" by (simp add: utc_def msPerDay_def)
  have h1: "mset (map (\<lambda>e. dayOf 0 (saveDate e)) [entryOn 9, entryOn 10])
        = mset (map (\<lambda>i. 10 - int i) [0..<length [entryOn 9, entryOn 10]])"
    by (simp add: entryOn_def dayOf_def msPerDay_def upt_rec)
  have h2: "10 * msPerDay + 5000 - saveDate (sortedEntries [entryOn 9, entryOn 10] ! 0) < 2 * msPerDay"
    unfolding sorted_ex3 by (simp add: entryOn_def msPerDay_def)
  have b: "calcCurrentStreak utc (10 * msPerDay + 5000) ''daily'' [entryOn 9, entryOn 10] = 2"
    using walk_counts_prefix[where tza = utc and entries = "[entryOn 9, entryOn 10]" and latest = 10
      and z = 0 and today = "10 * msPerDay + 5000", THEN conjunct2, THEN conjunct2, THEN conjunct2,
      THEN conjunct2, THEN conjunct2, THEN conjunct1, THEN mp, OF conjI, OF hd conjI, OF h1 h2]
    by simp
  have h3: "2 * msPerDay \<le> 10 * msPerDay - saveDate (sortedEntries [entryOn 5, entryOn 4] ! 0)"
    unfolding sorted_ex1 by (simp add: entryOn_def msPerDay_def)
  note c = walk_counts_prefix[where tza = utc and entries = "[entryOn 5, entryOn 4]"
      and today = "10 * msPerDay", THEN conjunct2, THEN conjunct2, THEN conjunct2, THEN conjunct2,
      THEN conjunct2, THEN conjunct2, THEN conjunct1, THEN mp, OF h3]
  have h4: "3 * msPerDay + 0 \<le> saveDate (sortedEntries [entryOn 10, entryOn 7] ! 0)
                       - saveDate (sortedEntries [entryOn 10, entryOn 7] ! Suc 0)"
    unfolding sorted_ex4 by (simp add: entryOn_def msPerDay_def)
  have e: "calcCurrentStreak utc (10 * msPerDay) ''daily'' [entryOn 10, entryOn 7] \<le> 1"
    using walk_counts_prefix[where tza = utc and m = 0 and entries = "[entryOn 10, entryOn 7]"
      and today = "10 * msPerDay" and j = 0, THEN conjunct2, THEN conjunct2, THEN conjunct2,
      THEN conjunct2, THEN conjunct2, THEN conjunct2, THEN conjunct2, THEN mp, OF conjI, OF h0 h4]
    by simp
  show ?thesis using example_get a h0 k hd h1 h2 b h3 c h4 e by (intro conjI)
qed

text \<open>
  C1 as stated fails for a daily streak, also on a server whose local time is UTC: two
  entries on consecutive days (days 5 and 4) give the count 0, not 2, when the clock reads
  day 10; and two entries two days apart (days 10 and 8) are both counted, so a gap of two
  days does not break the streak.
\<close>

theorem daily_counterexample:
  "calcCurrentStreak utc (10 * msPerDay) ''daily'' [entryOn 5, entryOn 4] = 0
   \<and> calcCurrentStreak utc (10 * msPerDay) ''daily'' [entryOn 5, entryOn 4]
        \<noteq> int (length [entryOn 5, entryOn 4])
   \<and> calcCurrentStreak utc (10 * msPerDay) ''daily'' [entryOn 8, entryOn 10] = 2"
  by (simp add: calcCurrentStreak_def sorted_ex1 sorted_ex2 gap_daily daysDiff_def Let_def
        setDateMinus_utc)
     (simp add: entryOn_def msPerDay_def)

subsection \<open>The weekly scenario\<close>

lemma gap_weekly: "expectedGap ''weekly'' = 7"
  by (simp add: expectedGap_def)

lemma weekly_walk:
  assumes "\<forall>x b y c. \<bar>tza x b - tza y c\<bar> \<le> msPerDay" and "t \<le> n" and "n < t + msPerDay"
    and "saveDate e1 = t - 7 * msPerDay" and "saveDate e2 = t - 14 * msPerDay"
  shows "walk tza ''weekly'' n 0 [e1, e2] = 2"
    and "saveDate e3 = t - 40 * msPerDay \<Longrightarrow> walk tza ''weekly'' n 0 [e1, e2, e3] = 2"
proof -
  let ?c1 = "setDateMinus tza (t - 7 * msPerDay) 7"
  let ?c2 = "setDateMinus tza (t - 14 * msPerDay) 7"
  have b1: "\<bar>?c1 - (t - 7 * msPerDay - 7 * msPerDay)\<bar> \<le> msPerDay"
    using assms(1) by (rule setDateMinus_bounds)
  have b2: "\<bar>?c2 - (t - 14 * msPerDay - 7 * msPerDay)\<bar> \<le> msPerDay"
    using assms(1) by (rule setDateMinus_bounds)
  have d1: "daysDiff n (t - 7 * msPerDay) \<le> 7"
    using daysDiff_shift[OF assms(2,3), of 7] by simp
  have d2: "daysDiff ?c1 (t - 14 * msPerDay) \<le> 7"
    unfolding daysDiff_le_iff using b1 by (simp add: msPerDay_def)
  have d3: "\<not> daysDiff ?c2 (t - 40 * msPerDay) \<le> 7"
    unfolding daysDiff_le_iff using b2 by (simp add: msPerDay_def)
  show "walk tza ''weekly'' n 0 [e1, e2] = 2"
    by (simp add: gap_weekly assms(4,5) d1 d2 Let_def)
  show "saveDate e3 = t - 40 * msPerDay \<Longrightarrow> walk tza ''weekly'' n 0 [e1, e2, e3] = 2"
    by (simp add: gap_weekly assms(4,5) d1 d2 d3 Let_def)
qed

lemma weekly_calc:
  assumes "\<forall>x b y c. \<bar>tza x b - tza y c\<bar> \<le> msPerDay" and "t \<le> n" and "n < t + msPerDay"
  shows "mset (map saveDate es) = {#t - 7 * msPerDay, t - 14 * msPerDay#}
           \<Longrightarrow> calcCurrentStreak tza n ''weekly'' es = 2"
    and "mset (map saveDate es) = {#t - 7 * msPerDay, t - 14 * msPerDay, t - 40 * msPerDay#}
           \<Longrightarrow> calcCurrentStreak tza n ''weekly'' es = 2"
proof -
  assume m: "mset (map saveDate es) = {#t - 7 * msPerDay, t - 14 * msPerDay#}"
  have mm: "mset (map saveDate es) = mset [t - 7 * msPerDay, t - 14 * msPerDay]"
    using m by simp
  have ss: "sorted (map uminus [t - 7 * msPerDay, t - 14 * msPerDay])"
    by (simp add: msPerDay_def)
  have "map saveDate (sortedEntries es) = [t - 7 * msPerDay, t - 14 * msPerDay]"
    using mm ss by (rule sorted_dates)
  then obtain e1 e2 where e: "sortedEntries es = [e1, e2]" "saveDate e1 = t - 7 * msPerDay"
      "saveDate e2 = t - 14 * msPerDay" by (auto simp: map_eq_Cons_conv)
  show "calcCurrentStreak tza n ''weekly'' es = 2"
    using weekly_walk(1)[OF assms e(2,3)] by (simp add: calcCurrentStreak_def e(1))
next
  assume m: "mset (map saveDate es) = {#t - 7 * msPerDay, t - 14 * msPerDay, t - 40 * msPerDay#}"
  have mm: "mset (map saveDate es)
              = mset [t - 7 * msPerDay, t - 14 * msPerDay, t - 40 * msPerDay]"
    using m by simp
  have ss: "sorted (map uminus [t - 7 * msPerDay, t - 14 * msPerDay, t - 40 * msPerDay])"
    by (simp add: msPerDay_def)
  have "map saveDate (sortedEntries es) = [t - 7 * msPerDay, t - 14 * msPerDay, t - 40 * msPerDay]"
    using mm ss by (rule sorted_dates)
  then obtain e1 e2 e3 where e: "sortedEntries es = [e1, e2, e3]" "saveDate e1 = t - 7 * msPerDay"
      "saveDate e2 = t - 14 * msPerDay" "saveDate e3 = t - 40 * msPerDay"
    by (auto simp: map_eq_Cons_conv)
  show "calcCurrentStreak tza n ''weekly'' es = 2"
    using weekly_walk(2)[OF assms e(2,3,4)] by (simp add: calcCurrentStreak_def e(1))
qed

lemma post_entry:
  assumes "getSavingsStreak sid u d = Some s"
  shows "fst (postStreakEntryRoute tza now u sid (Some (a, sd)) d) = Json 201 (newEntry now sid a sd d)"
    and "getStreakEntries sid (snd (postStreakEntryRoute tza now u sid (Some (a, sd)) d))
           = getStreakEntries sid d @ [newEntry now sid a sd d]"
    and "getSavingsStreak sid u (snd (postStreakEntryRoute tza now u sid (Some (a, sd)) d))
           = Some (progressRow tza now s (getStreakEntries sid d @ [newEntry now sid a sd d]) s)"
proof -
  let ?v = "\<lparr>insert_streak_entry.streakId = sid, insert_streak_entry.amount = a,
             insert_streak_entry.saveDate = sd\<rparr>"
  let ?d1 = "snd (addStreakEntry now ?v d)"
  have f1: "fst (addStreakEntry now ?v d) = newEntry now sid a sd d"
    by (simp add: addStreakEntry_def newEntry_def Let_def)
  have e1: "getStreakEntries sid ?d1 = getStreakEntries sid d @ [newEntry now sid a sd d]"
    by (simp add: addStreakEntry_def newEntry_def Let_def getStreakEntries_def selectWhere_def)
  have g1: "getSavingsStreak sid u ?d1 = Some s" using assms by simp
  have r: "postStreakEntryRoute tza now u sid (Some (a, sd)) d
            = (Json 201 (fst (addStreakEntry now ?v d)), snd (updateStreakProgress tza now sid u ?d1))"
    using assms by (simp add: postStreakEntryRoute_def Let_def split: prod.splits)
  show "fst (postStreakEntryRoute tza now u sid (Some (a, sd)) d) = Json 201 (newEntry now sid a sd d)"
    by (simp add: r f1)
  from progress_persisted[OF g1, of tza now]
  show "getStreakEntries sid (snd (postStreakEntryRoute tza now u sid (Some (a, sd)) d))
           = getStreakEntries sid d @ [newEntry now sid a sd d]"
    and "getSavingsStreak sid u (snd (postStreakEntryRoute tza now u sid (Some (a, sd)) d))
           = Some (progressRow tza now s (getStreakEntries sid d @ [newEntry now sid a sd d]) s)"
    by (simp_all add: r e1)
qed

text \<open>
  C7: a weekly streak without entries whose stored \<^verbatim>\<open>longestStreak\<close> is at most 2 (a new
  streak has 0) gets, by \<^verbatim>\<open>POST /api/streaks/:id/entries\<close>, entries dated 7 and 14 days
  before the instant \<open>t\<close>, in either order, each request being handled within a day after
  \<open>t\<close>: the stored row then has \<^verbatim>\<open>currentStreak\<close> 2 and \<^verbatim>\<open>longestStreak\<close> 2. A third
  entry dated 40 days before \<open>t\<close> leaves both at 2. The count goes by the dates alone: every
  list of entries with the dates 7 and 14 days before \<open>t\<close>, and every list with the dates 7,
  14 and 40 days before \<open>t\<close>, in whatever order the store returns it, has the count 2. This
  holds on every server whose offsets of local time differ by at most a day.
\<close>

theorem weekly_scenario:
  assumes "getSavingsStreak sid u d = Some s" and "frequency s = ''weekly''"
    and "longestStreak s \<le> 2" and "getStreakEntries sid d = []"
    and "\<forall>x b y c. \<bar>tza x b - tza y c\<bar> \<le> msPerDay"
    and "t \<le> n1" and "n1 < t + msPerDay" and "t \<le> n2" and "n2 < t + msPerDay"
    and "t \<le> n3" and "n3 < t + msPerDay"
    and "(k1, k2) = (7, 14) \<or> (k1, k2) = (14, 7)"
  shows "(\<exists>s2 s3.
           getSavingsStreak sid u
             (postStreakEntries tza [(n1, u, sid, Some (a1, t - k1 * msPerDay)),
                                     (n2, u, sid, Some (a2, t - k2 * msPerDay))] d) = Some s2
         \<and> currentStreak s2 = 2 \<and> longestStreak s2 = 2
         \<and> getSavingsStreak sid u
             (postStreakEntries tza [(n1, u, sid, Some (a1, t - k1 * msPerDay)),
                                     (n2, u, sid, Some (a2, t - k2 * msPerDay)),
                                     (n3, u, sid, Some (a3, t - 40 * msPerDay))] d) = Some s3
         \<and> currentStreak s3 = 2 \<and> longestStreak s3 = 2)
       \<and> (mset (map saveDate entries) = {#t - 7 * msPerDay, t - 14 * msPerDay#}
            \<longrightarrow> calcCurrentStreak tza n1 ''weekly'' entries = 2)
       \<and> (mset (map saveDate entries)
             = {#t - 7 * msPerDay, t - 14 * msPerDay, t - 40 * msPerDay#}
            \<longrightarrow> calcCurrentStreak tza n1 ''weekly'' entries = 2)"
proof -
  let ?d1 = "snd (postStreakEntryRoute tza n1 u sid (Some (a1, t - k1 * msPerDay)) d)"
  let ?e1 = "newEntry n1 sid a1 (t - k1 * msPerDay) d"
  let ?s1 = "progressRow tza n1 s [?e1] s"
  have g1: "getSavingsStreak sid u ?d1 = Some ?s1" and l1: "getStreakEntries sid ?d1 = [?e1]"
    using post_entry(2,3)[OF assms(1), of tza n1 a1 "t - k1 * msPerDay"] assms(4) by simp_all
  let ?d2 = "snd (postStreakEntryRoute tza n2 u sid (Some (a2, t - k2 * msPerDay)) ?d1)"
  let ?e2 = "newEntry n2 sid a2 (t - k2 * msPerDay) ?d1"
  let ?s2 = "progressRow tza n2 ?s1 [?e1, ?e2] ?s1"
  have g2: "getSavingsStreak sid u ?d2 = Some ?s2" and l2: "getStreakEntries sid ?d2 = [?e1, ?e2]"
    using post_entry(2,3)[OF g1, of tza n2 a2 "t - k2 * msPerDay"] l1 by simp_all
  let ?d3 = "snd (postStreakEntryRoute tza n3 u sid (Some (a3, t - 40 * msPerDay)) ?d2)"
  let ?e3 = "newEntry n3 sid a3 (t - 40 * msPerDay) ?d2"
  let ?s3 = "progressRow tza n3 ?s2 [?e1, ?e2, ?e3] ?s2"
  have g3: "getSavingsStreak sid u ?d3 = Some ?s3"
    using post_entry(3)[OF g2, of tza n3 a3 "t - 40 * msPerDay"] l2 by simp
  have m2: "mset (map saveDate [?e1, ?e2]) = {#t - 7 * msPerDay, t - 14 * msPerDay#}"
    using assms(12) by (auto simp: newEntry_def)
  have m3: "mset (map saveDate [?e1, ?e2, ?e3])
              = {#t - 7 * msPerDay, t - 14 * msPerDay, t - 40 * msPerDay#}"
    using assms(12) by (auto simp: newEntry_def)
  have f1: "frequency ?s1 = ''weekly''" using assms(2) by (simp add: progressRow_def)
  have f2: "frequency ?s2 = ''weekly''" using f1 by (simp add: progressRow_def)
  have c1: "calcCurrentStreak tza n1 ''weekly'' [?e1] \<le> 1"
    using calcCurrentStreak_bounds[of tza n1 "''weekly''" "[?e1]"] by simp
  have c2: "calcCurrentStreak tza n2 ''weekly'' [?e1, ?e2] = 2"
    using assms(5,8,9) m2 by (rule weekly_calc(1))
  have c3: "calcCurrentStreak tza n3 ''weekly'' [?e1, ?e2, ?e3] = 2"
    using assms(5,10,11) m3 by (rule weekly_calc(2))
  have L1: "longestStreak ?s1 \<le> 2"
    using assms(2,3) c1 by (simp add: progressRow_def)
  have L2: "currentStreak ?s2 = 2" "longestStreak ?s2 = 2"
    using f1 c2 L1 by (simp_all add: progressRow_def)
  have L3: "currentStreak ?s3 = 2" "longestStreak ?s3 = 2"
    using f2 c3 L2(2) by (simp_all add: progressRow_def)
  have A: "\<exists>s2 s3.
           getSavingsStreak sid u
             (postStreakEntries tza [(n1, u, sid, Some (a1, t - k1 * msPerDay)),
                                     (n2, u, sid, Some (a2, t - k2 * msPerDay))] d) = Some s2
         \<and> currentStreak s2 = 2 \<and> longestStreak s2 = 2
         \<and> getSavingsStreak sid u
             (postStreakEntries tza [(n1, u, sid, Some (a1, t - k1 * msPerDay)),
                                     (n2, u, sid, Some (a2, t - k2 * msPerDay)),
                                     (n3, u, sid, Some (a3, t - 40 * msPerDay))] d) = Some s3
         \<and> currentStreak s3 = 2 \<and> longestStreak s3 = 2"
    using g2 g3 L2 L3 by (intro exI[of _ ?s2] exI[of _ ?s3]) simp
  have B: "mset (map saveDate entries) = {#t - 7 * msPerDay, t - 14 * msPerDay#}
            \<longrightarrow> calcCurrentStreak tza n1 ''weekly'' entries = 2"
    using weekly_calc(1)[OF assms(5,6,7), of entries] by blast
  have C: "mset (map saveDate entries)
             = {#t - 7 * msPerDay, t - 14 * msPerDay, t - 40 * msPerDay#}
            \<longrightarrow> calcCurrentStreak tza n1 ''weekly'' entries = 2"
    using weekly_calc(2)[OF assms(5,6,7), of entries] by blast
  from A B C show ?thesis by (intro conjI)
qed

theorem weekly_scenario_witness:
  "getSavingsStreak 1 ''alice'' exampleDb = Some exampleStreak
   \<and> frequency exampleStreak = ''weekly'' \<and> longestStreak exampleStreak \<le> 2
   \<and> getStreakEntries 1 exampleDb = []
   \<and> (\<forall>x b y c. \<bar>utc x b - utc y c\<bar> \<le> msPerDay)
   \<and> 100 * msPerDay \<le> 100 * msPerDay + 1000 \<and> 100 * msPerDay + 1000 < 100 * msPerDay + msPerDay
   \<and> ((14::int, 7::int) = (7, 14) \<or> (14::int, 7::int) = (14, 7))
   \<and> (\<exists>s2 s3.
           getSavingsStreak 1 ''alice''
             (postStreakEntries utc
                [(100 * msPerDay + 1000, ''alice'', 1, Some (ofInt 50, 100 * msPerDay - 14 * msPerDay)),
                 (100 * msPerDay + 1000, ''alice'', 1, Some (ofInt 50, 100 * msPerDay - 7 * msPerDay))]
                exampleDb) = Some s2
         \<and> currentStreak s2 = 2 \<and> longestStreak s2 = 2
         \<and> getSavingsStreak 1 ''alice''
             (postStreakEntries utc
                [(100 * msPerDay + 1000, ''alice'', 1, Some (ofInt 50, 100 * msPerDay - 14 * msPerDay)),
                 (100 * msPerDay + 1000, ''alice'', 1, Some (ofInt 50, 100 * msPerDay - 7 * msPerDay)),
                 (100 * msPerDay + 1000, ''alice'', 1, Some (ofInt 50, 100 * msPerDay - 40 * msPerDay))]
                exampleDb) = Some s3
         \<and> currentStreak s3 = 2 \<and> longestStreak s3 = 2)
   \<and> mset (map saveDate [entryOn 60, entryOn 93, entryOn 86])
        = {#100 * msPerDay - 7 * msPerDay, 100 * msPerDay - 14 * msPerDay,
            100 * msPerDay - 40 * msPerDay#}
   \<and> calcCurrentStreak utc (100 * msPerDay + 1000) ''weekly'' [entryOn 60, entryOn 93, entryOn 86] = 2"
proof -
  have h2: "frequency exampleStreak = ''weekly''" and h3: "longestStreak exampleStreak \<le> 2"
    by (simp_all add: exampleStreak_def)
  have hz: "\<forall>x b y c. \<bar>utc x b - utc y c\<bar> \<le> msPerDay" by (simp add: utc_def msPerDay_def)
  have h5: "100 * msPerDay \<le> 100 * msPerDay + 1000"
    and h6: "100 * msPerDay + 1000 < 100 * msPerDay + msPerDay"
    by (simp_all add: msPerDay_def)
  have hk: "(14::int, 7::int) = (7, 14) \<or> (14::int, 7::int) = (14, 7)" by simp
  have hm: "mset (map saveDate [entryOn 60, entryOn 93, entryOn 86])
        = {#100 * msPerDay - 7 * msPerDay, 100 * msPerDay - 14 * msPerDay,
            100 * msPerDay - 40 * msPerDay#}"
    by (simp add: entryOn_def msPerDay_def)
  note w = weekly_scenario[OF example_get h2 h3 example_entries hz h5 h6 h5 h6 h5 h6 hk,
      where ?a1.0 = "ofInt 50" and ?a2.0 = "ofInt 50" and ?a3.0 = "ofInt 50"
        and entries = "[entryOn 60, entryOn 93, entryOn 86]"]
  note w1 = w[THEN conjunct1]
  note w3 = w[THEN conjunct2, THEN conjunct2, THEN mp, OF hm]
  show ?thesis using example_get h2 h3 example_entries hz h5 h6 hk w1 hm w3 by (intro conjI)
qed

section \<open>The total saved\<close>




lemma rne_exact: "2 ^ sh dvd s \<Longrightarrow> rne s sh * 2 ^ sh = s"
  by (auto simp: rne_def Let_def)

lemma round53_int:
  assumes "\<bar>n\<bar> < 2 ^ 53"
  shows "round53 (n * 2 ^ 1074) = Fin (n * 2 ^ 1074)"
proof -
  let ?s = "n * 2 ^ 1074"
  let ?sh = "nat (bitlen \<bar>?s\<bar> - 53)"
  have "bitlen \<bar>n\<bar> \<le> 53" using assms by (simp add: bitlen_le_iff_power)
  have sh: "?sh \<le> 1074"
  proof (cases "n = 0")
    case True then show ?thesis by simp
  next
    case False
    then have "0 < \<bar>n\<bar>" by simp
    then have "bitlen (\<bar>n\<bar> * 2 ^ 1074) = bitlen \<bar>n\<bar> + 1074"
      using bitlen_pow2[of "\<bar>n\<bar>" 1074] by simp
    moreover have "\<bar>?s\<bar> = \<bar>n\<bar> * 2 ^ 1074" by (simp add: abs_mult)
    ultimately show ?thesis using \<open>bitlen \<bar>n\<bar> \<le> 53\<close> by simp
  qed
  then have "(2::int) ^ ?sh dvd 2 ^ 1074" by (rule le_imp_power_dvd)
  then have "2 ^ ?sh dvd ?s" by (rule dvd_mult)
  then have v: "rne ?s ?sh * 2 ^ ?sh = ?s" by (rule rne_exact)
  have "\<bar>?s\<bar> = \<bar>n\<bar> * 2 ^ 1074" by (simp add: abs_mult)
  also have "\<dots> < 2 ^ 53 * 2 ^ 1074" using assms by simp
  also have "\<dots> \<le> (2::int) ^ 2098" by (simp flip: power_add)
  finally have "\<not> 2 ^ 2098 \<le> \<bar>?s\<bar>" by simp
  then show ?thesis unfolding round53_def Let_def v by simp
qed

lemma fadd_ofInt: "\<bar>a + b\<bar> < 2 ^ 53 \<Longrightarrow> fadd (ofInt a) (ofInt b) = ofInt (a + b)"
  using round53_int[of "a + b"] by (simp add: ofInt_def algebra_simps)

lemma foldl_fadd_ofInt:
  "\<bar>acc\<bar> + (\<Sum>k\<leftarrow>ks. \<bar>k\<bar>) < 2 ^ 53 \<Longrightarrow>
   foldl fadd (ofInt acc) (map ofInt ks) = ofInt (acc + sum_list ks)"
proof (induction ks arbitrary: acc)
  case Nil then show ?case by simp
next
  case (Cons k ks)
  have nn: "0 \<le> (\<Sum>k\<leftarrow>ks. \<bar>k\<bar>)" by (rule sum_list_nonneg) auto
  have "\<bar>acc + k\<bar> < 2 ^ 53" using Cons.prems nn by simp
  then have f: "fadd (ofInt acc) (ofInt k) = ofInt (acc + k)" by (rule fadd_ofInt)
  have "\<bar>acc + k\<bar> + (\<Sum>k\<leftarrow>ks. \<bar>k\<bar>) < 2 ^ 53" using Cons.prems by simp
  from Cons.IH[OF this] f show ?case by (simp add: add.assoc)
qed

lemma sumAmounts_foldl:
  "sumAmounts entries = foldl fadd (Fin 0) (map streak_entry.amount entries)"
  by (simp add: sumAmounts_def foldl_map)

lemma sumAmounts_ints:
  assumes "map streak_entry.amount entries = map ofInt ks" and "(\<Sum>k\<leftarrow>ks. \<bar>k\<bar>) < 2 ^ 53"
  shows "sumAmounts entries = ofInt (sum_list ks)" and "sumAmounts entries = exactTotal entries"
proof -
  have z: "Fin 0 = ofInt 0" by (simp add: ofInt_def)
  show s: "sumAmounts entries = ofInt (sum_list ks)"
    using foldl_fadd_ofInt[of 0 ks] assms by (simp add: sumAmounts_foldl z)
  have "map (\<lambda>e. units (streak_entry.amount e)) entries = map units (map streak_entry.amount entries)"
    by simp
  also have "\<dots> = map (\<lambda>k. k * 2 ^ 1074) ks" by (simp add: assms(1) ofInt_def)
  finally have "exactTotal entries = ofInt (sum_list ks)"
    by (simp add: exactTotal_def ofInt_def sum_list_mult_const)
  with s show "sumAmounts entries = exactTotal entries" by simp
qed

lemma tens_get: "getSavingsStreak 1 ''alice'' tensDb = Some exampleStreak"
  using example_get by (simp add: tensDb_def getSavingsStreak_def)

lemma tens_entries: "getStreakEntries 1 tensDb = [entryOn 1, entryOn 2]"
  by (simp add: getStreakEntries_def selectWhere_def tensDb_def entryOn_def)








section \<open>The current streak is bounded\<close>

lemma tens_progress:
  "fst (updateStreakProgress utc (2 * msPerDay + 1500) 1 ''alice'' tensDb) = Some tensProgress"
proof -
  let ?es = "[entryOn 1, entryOn 2]"
  have s: "sortedEntries ?es = [entryOn 2, entryOn 1]"
    by (simp add: sortedEntries_def entryOn_def msPerDay_def)
  have c: "calcCurrentStreak utc (2 * msPerDay + 1500) ''weekly'' ?es = 2"
    unfolding calcCurrentStreak_def s
    by (simp add: gap_weekly setDateMinus_utc daysDiff_def Let_def) (simp add: entryOn_def msPerDay_def)
  have l: "calcLastSaveDate ?es = Some (2 * msPerDay)"
    unfolding calcLastSaveDate_def s by (simp add: entryOn_def)
  have a: "sumAmounts ?es = ofInt 20"
    using sumAmounts_ints(1)[of ?es "[10, 10]"] by (simp add: entryOn_def)
  have t: "timestamp (2 * msPerDay + 1500) = 2 * msPerDay + 1000"
    by (simp add: timestamp_def msPerDay_def)
  have f: "frequency exampleStreak = ''weekly''" "longestStreak exampleStreak = 0"
    by (simp_all add: exampleStreak_def)
  have "progressRow utc (2 * msPerDay + 1500) exampleStreak ?es exampleStreak = tensProgress"
    unfolding progressRow_def f c l a t tensProgress_def by (simp add: ofInt_def)
  then show ?thesis using progress_persisted[OF tens_get, of utc "2 * msPerDay + 1500"]
    by (simp add: tens_entries)
qed

text \<open>
  C10: when a recomputation succeeds (it returns a row), that row is the one stored, and its
  \<^verbatim>\<open>currentStreak\<close> is at most the number of entries of the streak and at most its
  \<^verbatim>\<open>longestStreak\<close>.
\<close>

theorem currentStreak_bounded:
  assumes "fst (updateStreakProgress tza today sid u d) = Some s'"
  shows "getSavingsStreak sid u (snd (updateStreakProgress tza today sid u d)) = Some s'
       \<and> currentStreak s' \<le> int (length (getStreakEntries sid d))
       \<and> currentStreak s' \<le> longestStreak s'"
proof (cases "getSavingsStreak sid u d")
  case None
  with assms show ?thesis by (simp add: updateStreakProgress_None)
next
  case (Some s)
  from progress_persisted[OF Some, of tza today] assms
  have s': "s' = progressRow tza today s (getStreakEntries sid d) s"
    and p: "getSavingsStreak sid u (snd (updateStreakProgress tza today sid u d)) = Some s'" by simp_all
  show ?thesis using p calcCurrentStreak_bounds[of tza today "frequency s" "getStreakEntries sid d"]
    by (simp add: s' progressRow_def)
qed

theorem currentStreak_bounded_witness:
  "fst (updateStreakProgress utc (2 * msPerDay + 1500) 1 ''alice'' tensDb) = Some tensProgress
   \<and> getStreakEntries 1 tensDb = [entryOn 1, entryOn 2]
   \<and> currentStreak tensProgress = 2
   \<and> getSavingsStreak 1 ''alice'' (snd (updateStreakProgress utc (2 * msPerDay + 1500) 1 ''alice'' tensDb))
        = Some tensProgress
   \<and> currentStreak tensProgress \<le> int (length (getStreakEntries 1 tensDb))
   \<and> currentStreak tensProgress \<le> longestStreak tensProgress"
proof -
  have h: "fst (updateStreakProgress utc (2 * msPerDay + 1500) 1 ''alice'' tensDb) = Some tensProgress"
    by (rule tens_progress)
  have c: "currentStreak tensProgress = 2" by (simp add: tensProgress_def)
  note b = currentStreak_bounded[OF h]
  show ?thesis using h tens_entries c b[THEN conjunct1] b[THEN conjunct2, THEN conjunct1]
      b[THEN conjunct2, THEN conjunct2] by (intro conjI)
qed

section \<open>Goal progress\<close>












section \<open>Registration\<close>

text \<open>
  C8: when the email of the request is already registered, \<^verbatim>\<open>POST /api/auth/register\<close> of
  index.ts answers 409 and \<^verbatim>\<open>POST /api/register\<close> of auth.ts answers 400 (with the text
  that the user exists, when the request has an email and a password), and neither adds a
  row: the database is as before.
\<close>

theorem register_conflict:
  assumes "getUserByEmail e d = Some existing"
  shows "authRegisterRoute hash newId now (body\<lparr>register_body.email := Some e\<rparr>) d
           = (Msg 409 Email_ja_esta_em_uso, d)
       \<and> (e \<noteq> [] \<and> \<not> falsy (register_body.password body) \<longrightarrow>
            registerRoute hashPassword newId now (body\<lparr>register_body.email := Some e\<rparr>) d
              = (Msg 400 Usuario_ja_existe_com_este_email, d))
       \<and> (\<exists>m. registerRoute hashPassword newId now (body\<lparr>register_body.email := Some e\<rparr>) d
              = (Msg 400 m, d))"
proof (intro conjI impI)
  show "authRegisterRoute hash newId now (body\<lparr>register_body.email := Some e\<rparr>) d
           = (Msg 409 Email_ja_esta_em_uso, d)"
    using assms by (simp add: authRegisterRoute_def getUserByEmail_def)
next
  assume "e \<noteq> [] \<and> \<not> falsy (register_body.password body)"
  then show "registerRoute hashPassword newId now (body\<lparr>register_body.email := Some e\<rparr>) d
              = (Msg 400 Usuario_ja_existe_com_este_email, d)"
    using assms by (simp add: registerRoute_def falsy_def)
next
  show "\<exists>m. registerRoute hashPassword newId now (body\<lparr>register_body.email := Some e\<rparr>) d
              = (Msg 400 m, d)"
    using assms by (simp add: registerRoute_def)
qed

lemma alice_registered: "getUserByEmail ''alice@example.com'' usersDb = Some aliceUser"
  by (simp add: getUserByEmail_def selectWhere_def firstRow_def usersDb_def aliceUser_def emptyDb_def)

theorem register_conflict_witness:
  "getUserByEmail ''alice@example.com'' usersDb = Some aliceUser
   \<and> authRegisterRoute (\<lambda>p. ''bcrypt'' @ p) ''u2'' 1000 aliceAgain usersDb
        = (Msg 409 Email_ja_esta_em_uso, usersDb)
   \<and> ''alice@example.com'' \<noteq> [] \<and> \<not> falsy (register_body.password aliceAgain)
   \<and> registerRoute (\<lambda>p. ''scrypt'' @ p) ''u2'' 1000 aliceAgain usersDb
        = (Msg 400 Usuario_ja_existe_com_este_email, usersDb)"
proof -
  have b: "aliceAgain\<lparr>register_body.email := Some ''alice@example.com''\<rparr> = aliceAgain"
    by (simp add: aliceAgain_def)
  have h: "''alice@example.com'' \<noteq> []" "\<not> falsy (register_body.password aliceAgain)"
    by (simp_all add: aliceAgain_def falsy_def)
  note t = register_conflict[OF alice_registered, where body = aliceAgain and newId = "''u2''"
      and now = 1000 and hash = "\<lambda>p. ''bcrypt'' @ p" and hashPassword = "\<lambda>p. ''scrypt'' @ p",
      unfolded b]
  note t1 = t[THEN conjunct1]
  note t2 = t[THEN conjunct2, THEN conjunct1, THEN mp, OF conjI, OF h]
  show ?thesis using alice_registered t1 h t2 by (intro conjI)
qed

section \<open>Ownership\<close>

text \<open>
  Every route of the storage-backed server that reads, changes or deletes one row answers
  404, and changes nothing, when the table has no row with this id for this user: whether
  the id is of another user's row or of no row makes no difference.
\<close>

lemma no_row_select: "\<not> owns u i t \<Longrightarrow> selectWhere (and' (eqId i) (eqUserId u)) t = []"
  by (simp add: owns_def)

lemma no_row_filter: "\<not> owns u i t \<Longrightarrow> filter (and' (eqId i) (eqUserId u)) t = []"
  by (simp add: owns_def selectWhere_def)

lemma map_if_not: "filter p t = [] \<Longrightarrow> map (\<lambda>r. if p r then f r else r) t = t"
  by (induction t) (auto split: if_splits)

lemma filter_not_all: "filter p t = [] \<Longrightarrow> filter (\<lambda>r. \<not> p r) t = t"
  by (induction t) (auto split: if_splits)

lemma no_row_update: "\<not> owns u i t \<Longrightarrow> updateWhere f (and' (eqId i) (eqUserId u)) t = (t, [])"
  by (simp add: updateWhere_def no_row_filter map_if_not)

lemma no_row_delete: "\<not> owns u i t \<Longrightarrow> deleteWhere (and' (eqId i) (eqUserId u)) t = (t, 0)"
  by (simp add: deleteWhere_def no_row_filter filter_not_all)

lemma storage_routes_not_found:
  shows "\<not> owns u i (expenses d) \<Longrightarrow> getExpenseRoute u i d = (Msg 404 Expense_not_found, d)"
    and "\<not> owns u i (expenses d) \<Longrightarrow> putExpenseRoute u i (Some (Fields fe)) d = (Msg 404 Expense_not_found, d)"
    and "\<not> owns u i (expenses d) \<Longrightarrow> deleteExpenseRoute u i d = (Msg 404 Expense_not_found, d)"
    and "\<not> owns u i (budgets d) \<Longrightarrow> putBudgetRoute u i (Some (Fields fb)) d = (Msg 404 Budget_not_found, d)"
    and "\<not> owns u i (budgets d) \<Longrightarrow> deleteBudgetRoute u i d = (Msg 404 Budget_not_found, d)"
    and "\<not> owns u i (goals d) \<Longrightarrow> getGoalRoute u i d = (Msg 404 Goal_not_found, d)"
    and "\<not> owns u i (goals d) \<Longrightarrow> putGoalRoute now u i (Some fg) d = (Msg 404 Goal_not_found, d)"
    and "\<not> owns u i (goals d) \<Longrightarrow> deleteGoalRoute u i d = (Msg 404 Goal_not_found, d)"
    and "\<not> owns u i (goals d) \<Longrightarrow> \<not> ltZero a \<Longrightarrow>
           patchGoalProgressRoute now u i (JNum a) d = (Msg 404 Goal_not_found, d)"
    and "\<not> owns u i (savingsStreaks d) \<Longrightarrow> getStreakRoute u i d = (Msg 404 Streak_not_found, d)"
    and "\<not> owns u i (savingsStreaks d) \<Longrightarrow> deleteStreakRoute u i d = (Msg 404 Streak_not_found, d)"
    and "\<not> owns u i (savingsStreaks d) \<Longrightarrow>
           postStreakEntryRoute tza now u i body d = (Msg 404 Streak_not_found, d)"
    and "\<not> owns u i (savingsStreaks d) \<Longrightarrow> getStreakEntriesRoute u i d = (Msg 404 Streak_not_found, d)"
    and "\<not> owns u i (savingsStreaks d) \<Longrightarrow> updateStreakProgress tza now i u d = (None, d)"
    and "\<not> owns u i (savingsStreaks d) \<Longrightarrow> updateSavingsStreak now i fs u d = (None, d)"
  by (simp_all add: getExpenseRoute_def getExpense_def putExpenseRoute_def updateExpense_def
        deleteExpenseRoute_def deleteExpense_def putBudgetRoute_def updateBudget_def
        deleteBudgetRoute_def deleteBudget_def getGoalRoute_def getGoal_def putGoalRoute_def
        updateGoal_def deleteGoalRoute_def deleteGoal_def patchGoalProgressRoute_def
        updateGoalProgress_def getStreakRoute_def getSavingsStreak_def deleteStreakRoute_def
        deleteSavingsStreak_def postStreakEntryRoute_def getStreakEntriesRoute_def
        updateStreakProgress_def updateSavingsStreak_def
        no_row_select no_row_update no_row_delete firstRow_def rowCountPositive_def rowCount_def)

text \<open>
  Two more answers of these routes. An update of an expense or a budget with an empty body
  answers 500, whoever owns the row. A delete answers 404 also when it has deleted a row of
  the caller, since the result of the statement has no \<^verbatim>\<open>rowCount\<close>.
\<close>

lemma empty_body_update:
  "putExpenseRoute u i (Some NoFields) d = (Msg 500 Failed_to_update_expense, d)"
  "putBudgetRoute u i (Some NoFields) d = (Msg 500 Failed_to_update_budget, d)"
  by (simp_all add: putExpenseRoute_def updateExpense_def putBudgetRoute_def updateBudget_def)

lemma delete_answers_not_found:
  "fst (deleteExpenseRoute u i d) = Msg 404 Expense_not_found"
  "fst (deleteBudgetRoute u i d) = Msg 404 Budget_not_found"
  "fst (deleteGoalRoute u i d) = Msg 404 Goal_not_found"
  "fst (deleteStreakRoute u i d) = Msg 404 Streak_not_found"
  by (simp_all add: deleteExpenseRoute_def deleteExpense_def deleteBudgetRoute_def deleteBudget_def
        deleteGoalRoute_def deleteGoal_def deleteStreakRoute_def deleteSavingsStreak_def
        deleteWhere_def rowCountPositive_def rowCount_def Let_def)

lemma index_config: "configWhere (where' (eqUserId u) (where' (eqId i) None)) = eqUserId u"
  by (rule ext) (simp add: configWhere_def where'_def)

lemma goals_of_alice:
  "filter (eqUserId ''alice'') [aliceGoal, bobGoal] = [aliceGoal]"
  "map (\<lambda>r. if eqUserId ''alice'' r then f r else r) [aliceGoal, bobGoal] = [f aliceGoal, bobGoal]"
  "filter (\<lambda>r. \<not> eqUserId ''alice'' r) [aliceGoal, bobGoal] = [bobGoal]"
  by (simp_all add: eqUserId_def aliceGoal_def bobGoal_def)

lemma alice_owns_neither:
  "\<not> owns ''alice'' 999 (goals goalsDb)" "\<not> owns ''alice'' 2 (goals goalsDb)"
  by (simp_all add: owns_def selectWhere_def and'_def eqId_def eqUserId_def goalsDb_def
        aliceGoal_def bobGoal_def emptyDb_def)

text \<open>
  C4 fails on the goal routes of index.ts. With one goal of alice (id 1) and one of bob
  (id 2), alice's \<^verbatim>\<open>PUT /api/goals/999\<close> (no such goal) and \<^verbatim>\<open>PUT /api/goals/2\<close> (bob's goal)
  both answer 200 and overwrite alice's own goal, and her \<^verbatim>\<open>DELETE\<close> of either id answers
  204 and deletes her own goal, where the storage-backed routes answer 404 and change
  nothing: the second \<^verbatim>\<open>.where\<close> has replaced the condition on the id.
\<close>

theorem index_goal_routes_ignore_id:
  "\<not> owns ''alice'' 999 (goals goalsDb) \<and> \<not> owns ''alice'' 2 (goals goalsDb)
   \<and> putGoalIndexRoute 1000 ''alice'' 999 newGoalBody goalsDb
       = (Json 200 (setGoal newGoalBody 1000 aliceGoal),
          goalsDb\<lparr>goals := [setGoal newGoalBody 1000 aliceGoal, bobGoal]\<rparr>)
   \<and> putGoalIndexRoute 1000 ''alice'' 2 newGoalBody goalsDb
       = (Json 200 (setGoal newGoalBody 1000 aliceGoal),
          goalsDb\<lparr>goals := [setGoal newGoalBody 1000 aliceGoal, bobGoal]\<rparr>)
   \<and> deleteGoalIndexRoute ''alice'' 999 goalsDb = (Send 204, goalsDb\<lparr>goals := [bobGoal]\<rparr>)
   \<and> deleteGoalIndexRoute ''alice'' 2 goalsDb = (Send 204, goalsDb\<lparr>goals := [bobGoal]\<rparr>)
   \<and> putGoalRoute 1000 ''alice'' 999 (Some (setGoal newGoalBody 1000)) goalsDb
       = (Msg 404 Goal_not_found, goalsDb)
   \<and> deleteGoalRoute ''alice'' 2 goalsDb = (Msg 404 Goal_not_found, goalsDb)"
proof -
  have g: "goals goalsDb = [aliceGoal, bobGoal]" by (simp add: goalsDb_def)
  have p: "\<And>i. putGoalIndexRoute 1000 ''alice'' i newGoalBody goalsDb
       = (Json 200 (setGoal newGoalBody 1000 aliceGoal),
          goalsDb\<lparr>goals := [setGoal newGoalBody 1000 aliceGoal, bobGoal]\<rparr>)"
    unfolding putGoalIndexRoute_def Let_def index_config updateWhere_def g goals_of_alice
    by (simp add: firstRow_def)
  have q: "\<And>i. deleteGoalIndexRoute ''alice'' i goalsDb = (Send 204, goalsDb\<lparr>goals := [bobGoal]\<rparr>)"
    unfolding deleteGoalIndexRoute_def Let_def index_config deleteReturning_def g goals_of_alice
    by (simp add: firstRow_def)
  show ?thesis
    using alice_owns_neither p[of 999] p[of 2] q[of 999] q[of 2]
      storage_routes_not_found(7)[OF alice_owns_neither(1), of 1000 "setGoal newGoalBody 1000"]
      storage_routes_not_found(8)[OF alice_owns_neither(2)]
    by (intro conjI)
qed

end
